theory Spec2Isabelle
  imports Main "HOL-Library.Char_ord" "HOL-Library.List_Lexorder"
begin

section \<open>Calendar dates\<close>

text \<open>
  A JavaScript \<^verbatim>\<open>Date\<close> object holds a time value.  The calendar grid and the date
  strings use only the day of the local calendar on which the object lies: the objects
  are built by \<^verbatim>\<open>new Date(y, m, d)\<close>, or hold the current time and are read only through
  \<^verbatim>\<open>getFullYear\<close>, \<^verbatim>\<open>getMonth\<close> and \<^verbatim>\<open>getDate\<close>.  That day is modelled by its day number, the
  number of days since 1970-01-01 in the local calendar, and the operations are the
  day-level functions of the ECMAScript language specification (DaysInYear, DayFromYear,
  YearFromTime, MonthFromTime, DateFromTime, WeekDay, MakeDay).  The time of day and the
  time zone matter where two \<^verbatim>\<open>Date\<close> objects are compared; they are modelled in the
  section on time values.  Day numbers are unbounded integers: the limit of
  \<open>100,000,000\<close> days on either side of 1970 that a real \<^verbatim>\<open>Date\<close> has is outside the model.
\<close>

type_synonym Date = int

definition DaysInYear :: "int \<Rightarrow> int" where
  "DaysInYear y =
     (if y mod 4 \<noteq> 0 then 365
      else if y mod 100 \<noteq> 0 then 366
      else if y mod 400 \<noteq> 0 then 365
      else 366)"

definition DayFromYear :: "int \<Rightarrow> int" where
  "DayFromYear y =
     365 * (y - 1970) + (y - 1969) div 4 - (y - 1901) div 100 + (y - 1601) div 400"

subsection \<open>Years follow each other\<close>

lemma div_next:
  fixes n k :: int
  assumes "0 < k"
  shows "(n + 1) div k = n div k + (if (n + 1) mod k = 0 then 1 else 0)"
proof -
  have r: "0 \<le> n mod k" "n mod k < k" using assms by simp_all
  have n1: "k * (n div k) + n mod k + 1 = n + 1" by simp
  show ?thesis
  proof (cases "n mod k = k - 1")
    case True
    have "k * (n div k + 1) + 0 = k * (n div k) + n mod k + 1"
      unfolding True by (simp only: algebra_simps)
    then have e: "n + 1 = k * (n div k + 1) + 0" using n1 by linarith
    have "(n + 1) div k = n div k + 1"
      by (rule int_div_pos_eq [OF e]) (use assms in simp_all)
    moreover have "(n + 1) mod k = 0"
      by (rule int_mod_pos_eq [OF e]) (use assms in simp_all)
    ultimately show ?thesis by simp
  next
    case False
    then have b: "0 \<le> n mod k + 1" "n mod k + 1 < k" using r by simp_all
    have e: "n + 1 = k * (n div k) + (n mod k + 1)" using n1 by linarith
    have "(n + 1) div k = n div k"
      by (rule int_div_pos_eq [OF e b])
    moreover have "(n + 1) mod k = n mod k + 1"
      by (rule int_mod_pos_eq [OF e b])
    ultimately show ?thesis using r by simp
  qed
qed

lemma mod_next:
  fixes n k :: int
  assumes "0 < k"
  shows "(n + 1) mod k = (if n mod k = k - 1 then 0 else n mod k + 1)"
proof -
  have r: "0 \<le> n mod k" "n mod k < k" using assms by simp_all
  have n1: "k * (n div k) + n mod k + 1 = n + 1" by simp
  show ?thesis
  proof (cases "n mod k = k - 1")
    case True
    have "k * (n div k + 1) + 0 = k * (n div k) + n mod k + 1"
      unfolding True by (simp only: algebra_simps)
    then have e: "n + 1 = k * (n div k + 1) + 0" using n1 by linarith
    have "(n + 1) mod k = 0"
      by (rule int_mod_pos_eq [OF e]) (use assms in simp_all)
    then show ?thesis using True by simp
  next
    case False
    then have b: "0 \<le> n mod k + 1" "n mod k + 1 < k" using r by simp_all
    have e: "n + 1 = k * (n div k) + (n mod k + 1)" using n1 by linarith
    have "(n + 1) mod k = n mod k + 1"
      by (rule int_mod_pos_eq [OF e b])
    then show ?thesis using False by simp
  qed
qed

lemma mod_shift_100: "(y - 1900) mod 100 = y mod (100::int)"
  using mod_mult_self2 [of y 100 "-19"] by simp

lemma mod_shift_400: "(y - 1600) mod 400 = y mod (400::int)"
  using mod_mult_self2 [of y 400 "-4"] by simp

lemma mod_shift_4: "(y - 1968) mod 4 = y mod (4::int)"
  using mod_mult_self2 [of y 4 "-492"] by simp

lemma mod_100_4: "y mod (100::int) = 0 \<Longrightarrow> y mod 4 = 0"
  using mod_mod_cancel [of 4 100 y] by simp

lemma mod_400_100: "y mod (400::int) = 0 \<Longrightarrow> y mod 100 = 0"
  using mod_mod_cancel [of 100 400 y] by simp

lemma DayFromYear_next: "DayFromYear (y + 1) = DayFromYear y + DaysInYear y"
proof -
  have a: "(y + 1 - 1969) div 4 = (y - 1969) div 4 + (if y mod 4 = 0 then 1 else 0)"
    using div_next [of 4 "y - 1969"] mod_shift_4 [of y] by (simp add: algebra_simps)
  have b: "(y + 1 - 1901) div 100 = (y - 1901) div 100 + (if y mod 100 = 0 then 1 else 0)"
    using div_next [of 100 "y - 1901"] mod_shift_100 [of y] by (simp add: algebra_simps)
  have c: "(y + 1 - 1601) div 400 = (y - 1601) div 400 + (if y mod 400 = 0 then 1 else 0)"
    using div_next [of 400 "y - 1601"] mod_shift_400 [of y] by (simp add: algebra_simps)
  show ?thesis
    unfolding DayFromYear_def DaysInYear_def a b c
    using mod_100_4 [of y] mod_400_100 [of y] by auto
qed

lemma DaysInYear_cases: "DaysInYear y = 365 \<or> DaysInYear y = 366"
  by (simp add: DaysInYear_def)

lemma DayFromYear_less_next: "DayFromYear y < DayFromYear (y + 1)"
  using DaysInYear_cases [of y] by (auto simp: DayFromYear_next)

lemma DayFromYear_prev_less: "DayFromYear (y - 1) < DayFromYear y"
  using DayFromYear_less_next [of "y - 1"] by simp

subsection \<open>From a day number to year, month, day of the month and weekday\<close>

text \<open>
  \<^verbatim>\<open>YearFromTime(t)\<close> is the largest year whose first day is not after \<open>t\<close>.  It is found by
  a search from the estimate \<open>1970 + t div 365\<close>: first down to a year that starts at or
  before \<open>t\<close>, then up for as long as the next year also does.
\<close>

function yearDown :: "int \<Rightarrow> Date \<Rightarrow> int" where
  "yearDown y t = (if t < DayFromYear y then yearDown (y - 1) t else y)"
  by pat_completeness auto
termination
proof (relation "measure (\<lambda>(y, t). nat (DayFromYear y - t))")
  show "wf (measure (\<lambda>(y, t). nat (DayFromYear y - t)))" by simp
next
  fix y t :: int
  assume "t < DayFromYear y"
  then show "((y - 1, t), (y, t)) \<in> measure (\<lambda>(y, t). nat (DayFromYear y - t))"
    using DayFromYear_prev_less [of y] by simp
qed

function yearUp :: "int \<Rightarrow> Date \<Rightarrow> int" where
  "yearUp y t = (if DayFromYear (y + 1) \<le> t then yearUp (y + 1) t else y)"
  by pat_completeness auto
termination
proof (relation "measure (\<lambda>(y, t). nat (t + 1 - DayFromYear (y + 1)))")
  show "wf (measure (\<lambda>(y, t). nat (t + 1 - DayFromYear (y + 1))))" by simp
next
  fix y t :: int
  assume "DayFromYear (y + 1) \<le> t"
  then show "((y + 1, t), (y, t)) \<in> measure (\<lambda>(y, t). nat (t + 1 - DayFromYear (y + 1)))"
    using DayFromYear_less_next [of "y + 1"] by simp
qed

declare yearDown.simps [simp del] yearUp.simps [simp del]

definition YearFromTime :: "Date \<Rightarrow> int" where
  "YearFromTime t = yearUp (yearDown (1970 + t div 365) t) t"

definition InLeapYear :: "Date \<Rightarrow> int" where
  "InLeapYear t = (if DaysInYear (YearFromTime t) = 366 then 1 else 0)"

definition DayWithinYear :: "Date \<Rightarrow> int" where
  "DayWithinYear t = t - DayFromYear (YearFromTime t)"

definition MonthFromTime :: "Date \<Rightarrow> int" where
  "MonthFromTime t =
     (let d = DayWithinYear t; L = InLeapYear t in
      if d < 31 then 0
      else if d < 59 + L then 1
      else if d < 90 + L then 2
      else if d < 120 + L then 3
      else if d < 151 + L then 4
      else if d < 181 + L then 5
      else if d < 212 + L then 6
      else if d < 243 + L then 7
      else if d < 273 + L then 8
      else if d < 304 + L then 9
      else if d < 334 + L then 10
      else 11)"

definition DateFromTime :: "Date \<Rightarrow> int" where
  "DateFromTime t =
     (let d = DayWithinYear t; L = InLeapYear t; m = MonthFromTime t in
      if m = 0 then d + 1
      else if m = 1 then d - 30
      else if m = 2 then d - 58 - L
      else if m = 3 then d - 89 - L
      else if m = 4 then d - 119 - L
      else if m = 5 then d - 150 - L
      else if m = 6 then d - 180 - L
      else if m = 7 then d - 211 - L
      else if m = 8 then d - 242 - L
      else if m = 9 then d - 272 - L
      else if m = 10 then d - 303 - L
      else d - 333 - L)"

text \<open>Day 0 (1970-01-01) is a Thursday; Sunday is weekday 0.\<close>

definition WeekDay :: "Date \<Rightarrow> int" where
  "WeekDay t = (t + 4) mod 7"

subsection \<open>From year, month and day of the month to a day number\<close>

text \<open>
  The number of days of the year that lie before month \<open>mn\<close> (0 to 11); \<open>L\<close> is 1 in a
  leap year and 0 otherwise.
\<close>

definition monthStartDay :: "int \<Rightarrow> int \<Rightarrow> int" where
  "monthStartDay L mn =
     (if mn = 0 then 0
      else if mn = 1 then 31
      else if mn = 2 then 59 + L
      else if mn = 3 then 90 + L
      else if mn = 4 then 120 + L
      else if mn = 5 then 151 + L
      else if mn = 6 then 181 + L
      else if mn = 7 then 212 + L
      else if mn = 8 then 243 + L
      else if mn = 9 then 273 + L
      else if mn = 10 then 304 + L
      else 334 + L)"

text \<open>
  \<^verbatim>\<open>MakeDay(year, month, date)\<close>: a month outside 0 to 11 moves the year, a day of the
  month outside the month moves on into the neighbouring months.
\<close>

definition MakeDay :: "int \<Rightarrow> int \<Rightarrow> int \<Rightarrow> Date" where
  "MakeDay year month dt =
     (let ym = year + month div 12; mn = month mod 12 in
      DayFromYear ym + monthStartDay (if DaysInYear ym = 366 then 1 else 0) mn + dt - 1)"

subsection \<open>The methods of \<^verbatim>\<open>Date\<close> that the components call\<close>

text \<open>
  The constructor \<^verbatim>\<open>new Date(y, m, d)\<close> reads a year from 0 to 99 as a year of the
  twentieth century.
\<close>

definition jsYear :: "int \<Rightarrow> int" where
  "jsYear y = (if 0 \<le> y \<and> y \<le> 99 then 1900 + y else y)"

definition newDate :: "int \<Rightarrow> int \<Rightarrow> int \<Rightarrow> Date" where
  "newDate y m d = MakeDay (jsYear y) m d"

definition getFullYear :: "Date \<Rightarrow> int" where
  "getFullYear t = YearFromTime t"

definition getMonth :: "Date \<Rightarrow> int" where
  "getMonth t = MonthFromTime t"

definition getDate :: "Date \<Rightarrow> int" where
  "getDate t = DateFromTime t"

definition getDay :: "Date \<Rightarrow> int" where
  "getDay t = WeekDay t"

definition setDate :: "Date \<Rightarrow> int \<Rightarrow> Date" where
  "setDate t dt = MakeDay (YearFromTime t) (MonthFromTime t) dt"

text \<open>The length of month \<open>mn\<close> (0 to 11) of year \<open>ym\<close>, used to state facts about months.\<close>

definition daysInMonthOf :: "int \<Rightarrow> int \<Rightarrow> int" where
  "daysInMonthOf ym mn =
     (if mn = 1 then (if DaysInYear ym = 366 then 29 else 28)
      else if mn = 3 \<or> mn = 5 \<or> mn = 8 \<or> mn = 10 then 30
      else 31)"

subsection \<open>Year, month and day of the month determine the day number, and conversely\<close>

lemma yearDown_le: "DayFromYear (yearDown y t) \<le> t"
  by (induction y t rule: yearDown.induct) (subst yearDown.simps, simp)

lemma yearUp_bounds:
  "DayFromYear y \<le> t \<Longrightarrow> DayFromYear (yearUp y t) \<le> t \<and> t < DayFromYear (yearUp y t + 1)"
  by (induction y t rule: yearUp.induct) (subst (1 2) yearUp.simps, simp)

lemma YearFromTime_bounds:
  "DayFromYear (YearFromTime t) \<le> t" "t < DayFromYear (YearFromTime t + 1)"
  using yearUp_bounds [OF yearDown_le] by (simp_all add: YearFromTime_def)

lemma DayFromYear_mono_aux: "y \<le> y' \<Longrightarrow> DayFromYear y \<le> DayFromYear y'"
proof (induction y' rule: int_ge_induct)
  case base
  show ?case by simp
next
  case (step i)
  then show ?case using DayFromYear_less_next [of i] by simp
qed

lemma DayFromYear_mono: "y < y' \<Longrightarrow> DayFromYear (y + 1) \<le> DayFromYear y'"
  by (rule DayFromYear_mono_aux) simp

lemma YearFromTime_unique:
  assumes "DayFromYear y \<le> t" "t < DayFromYear (y + 1)"
  shows "YearFromTime t = y"
proof (rule ccontr)
  assume ne: "YearFromTime t \<noteq> y"
  note b = YearFromTime_bounds [of t]
  show False
  proof (cases "YearFromTime t < y")
    case True
    from DayFromYear_mono [OF True] b(2) assms(1) show False by simp
  next
    case False
    with ne have "y < YearFromTime t" by simp
    from DayFromYear_mono [OF this] b(1) assms(2) show False by simp
  qed
qed


lemma DayWithinYear_range: "0 \<le> DayWithinYear t" "DayWithinYear t < DaysInYear (YearFromTime t)"
  using YearFromTime_bounds [of t] by (simp_all add: DayWithinYear_def DayFromYear_next)

lemma MonthFromTime_range: "0 \<le> MonthFromTime t" "MonthFromTime t \<le> 11"
  by (simp_all add: MonthFromTime_def Let_def)

lemma month_in_range_cases:
  "0 \<le> (m::int) \<Longrightarrow> m \<le> 11 \<Longrightarrow>
   m = 0 \<or> m = 1 \<or> m = 2 \<or> m = 3 \<or> m = 4 \<or> m = 5 \<or> m = 6 \<or> m = 7 \<or> m = 8 \<or> m = 9 \<or> m = 10 \<or> m = 11"
  by arith

lemma DayWithinYear_split:
  "DayWithinYear t = monthStartDay (InLeapYear t) (MonthFromTime t) + DateFromTime t - 1"
  by (simp add: MonthFromTime_def DateFromTime_def monthStartDay_def Let_def)

lemma MakeDay_inverse: "MakeDay (YearFromTime t) (MonthFromTime t) (DateFromTime t) = t"
proof -
  have "MonthFromTime t div 12 = 0" "MonthFromTime t mod 12 = MonthFromTime t"
    using MonthFromTime_range [of t] by simp_all
  then show ?thesis
    using DayWithinYear_split [of t]
    by (simp add: MakeDay_def InLeapYear_def DayWithinYear_def Let_def)
qed

lemma MakeDay_add: "MakeDay y m (d + k) = MakeDay y m d + k"
  by (simp add: MakeDay_def Let_def)

text \<open>The fields of a day of month \<open>mn\<close> of year \<open>ym\<close>.\<close>

lemma fields_of_day_in_month:
  assumes m: "0 \<le> mn" "mn \<le> 11"
    and d: "1 \<le> d" "d \<le> daysInMonthOf ym mn"
    and t: "t = DayFromYear ym + monthStartDay (if DaysInYear ym = 366 then 1 else 0) mn + d - 1"
  shows "YearFromTime t = ym" "MonthFromTime t = mn" "DateFromTime t = d"
proof -
  define L :: int where "L = (if DaysInYear ym = 366 then 1 else 0)"
  have L: "L = 0 \<or> L = 1" by (simp add: L_def)
  have diy: "DaysInYear ym = 365 + L"
    using DaysInYear_cases [of ym] by (auto simp: L_def)
  have dim: "daysInMonthOf ym mn =
      (if mn = 1 then 28 + L else if mn = 3 \<or> mn = 5 \<or> mn = 8 \<or> mn = 10 then 30 else 31)"
    by (simp add: daysInMonthOf_def L_def)
  note mc = month_in_range_cases [OF m]
  have w: "0 \<le> monthStartDay L mn + d - 1 \<and> monthStartDay L mn + d - 1 < 365 + L"
    using mc d L unfolding dim by (elim disjE) (simp_all add: monthStartDay_def)
  have t': "t = DayFromYear ym + (monthStartDay L mn + d - 1)"
    unfolding t L_def by simp
  show y: "YearFromTime t = ym"
    by (rule YearFromTime_unique) (use w in \<open>simp_all add: DayFromYear_next t' diy\<close>)
  have dw: "DayWithinYear t = monthStartDay L mn + d - 1"
    unfolding DayWithinYear_def y unfolding t' by simp
  have il: "InLeapYear t = L" unfolding InLeapYear_def y L_def by simp
  show mt: "MonthFromTime t = mn"
    unfolding MonthFromTime_def dw il Let_def
    using mc d L unfolding dim by (elim disjE) (simp_all add: monthStartDay_def)
  show "DateFromTime t = d"
    unfolding DateFromTime_def dw il mt Let_def
    using mc by (elim disjE) (simp_all add: monthStartDay_def)
qed

text \<open>Setting the day of the month to the next one moves to the next day.\<close>

lemma setDate_next: "setDate t (getDate t + 1) = t + 1"
  by (simp add: setDate_def getDate_def MakeDay_add MakeDay_inverse)

lemma mod12_cases:
  "(m::int) mod 12 = 0 \<or> m mod 12 = 1 \<or> m mod 12 = 2 \<or> m mod 12 = 3 \<or> m mod 12 = 4 \<or> m mod 12 = 5
   \<or> m mod 12 = 6 \<or> m mod 12 = 7 \<or> m mod 12 = 8 \<or> m mod 12 = 9 \<or> m mod 12 = 10 \<or> m mod 12 = 11"
  by (rule month_in_range_cases) simp_all

lemma mod12_next:
  "((m::int) + 1) mod 12 = (if m mod 12 = 11 then 0 else m mod 12 + 1)"
  "((m::int) + 1) div 12 = (if m mod 12 = 11 then m div 12 + 1 else m div 12)"
proof -
  show a: "(m + 1) mod 12 = (if m mod 12 = 11 then 0 else m mod 12 + 1)"
    using mod_next [of 12 m] by simp
  have "m mod 12 \<noteq> 11 \<Longrightarrow> (m + 1) mod 12 \<noteq> 0"
    unfolding a using pos_mod_sign [of 12 m] by simp
  then show "(m + 1) div 12 = (if m mod 12 = 11 then m div 12 + 1 else m div 12)"
    using div_next [of 12 m] a by auto
qed

lemma daysInMonthOf_range: "28 \<le> daysInMonthOf ym mn" "daysInMonthOf ym mn \<le> 31"
  by (simp_all add: daysInMonthOf_def)

lemma MakeDay_first:
  "MakeDay y m 1 = DayFromYear (y + m div 12)
     + monthStartDay (if DaysInYear (y + m div 12) = 366 then 1 else 0) (m mod 12)"
  by (simp add: MakeDay_def Let_def)

lemma MakeDay_next_month:
  "MakeDay y (m + 1) 1 = MakeDay y m 1 + daysInMonthOf (y + m div 12) (m mod 12)"
proof -
  define ym where "ym = y + m div 12"
  define L :: int where "L = (if DaysInYear ym = 366 then 1 else 0)"
  have diy: "DaysInYear ym = 365 + L"
    using DaysInYear_cases [of ym] by (auto simp: L_def)
  have cur: "MakeDay y m 1 = DayFromYear ym + monthStartDay L (m mod 12)"
    unfolding MakeDay_first ym_def L_def by simp
  have dim: "daysInMonthOf ym (m mod 12) =
      (if m mod 12 = 1 then 28 + L
       else if m mod 12 = 3 \<or> m mod 12 = 5 \<or> m mod 12 = 8 \<or> m mod 12 = 10 then 30 else 31)"
    by (simp add: daysInMonthOf_def L_def)
  show ?thesis
  proof (cases "m mod 12 = 11")
    case True
    have "y + (m + 1) div 12 = ym + 1" by (simp add: mod12_next True ym_def)
    moreover have "(m + 1) mod 12 = 0" by (simp add: mod12_next True)
    ultimately have "MakeDay y (m + 1) 1 = DayFromYear (ym + 1)"
      unfolding MakeDay_first by (simp add: monthStartDay_def)
    also have "\<dots> = DayFromYear ym + 365 + L" by (simp add: DayFromYear_next diy)
    finally show ?thesis
      unfolding cur ym_def [symmetric] dim by (simp add: True monthStartDay_def)
  next
    case False
    have "y + (m + 1) div 12 = ym" by (simp add: mod12_next False ym_def)
    moreover have "(m + 1) mod 12 = m mod 12 + 1" by (simp add: mod12_next False)
    ultimately have "MakeDay y (m + 1) 1 = DayFromYear ym + monthStartDay L (m mod 12 + 1)"
      unfolding MakeDay_first L_def by simp
    moreover have "monthStartDay L (m mod 12 + 1) =
        monthStartDay L (m mod 12) + daysInMonthOf ym (m mod 12)"
      unfolding dim using mod12_cases [of m] False
      by (elim disjE) (simp_all add: monthStartDay_def)
    ultimately show ?thesis unfolding cur ym_def [symmetric] by simp
  qed
qed

lemma MakeDay_fields:
  assumes "1 \<le> d" "d \<le> daysInMonthOf (y + m div 12) (m mod 12)"
  shows "YearFromTime (MakeDay y m d) = y + m div 12"
    "MonthFromTime (MakeDay y m d) = m mod 12"
    "DateFromTime (MakeDay y m d) = d"
proof -
  have m: "0 \<le> m mod 12" "m mod 12 \<le> 11" by simp_all
  have t: "MakeDay y m d = DayFromYear (y + m div 12)
      + monthStartDay (if DaysInYear (y + m div 12) = 366 then 1 else 0) (m mod 12) + d - 1"
    by (simp add: MakeDay_def Let_def)
  show "YearFromTime (MakeDay y m d) = y + m div 12"
    "MonthFromTime (MakeDay y m d) = m mod 12"
    "DateFromTime (MakeDay y m d) = d"
    using fields_of_day_in_month [OF m assms t] by simp_all
qed

lemma YearFromTime_ge: "DayFromYear y \<le> t \<Longrightarrow> y \<le> YearFromTime t"
proof (rule ccontr)
  assume a: "DayFromYear y \<le> t" and "\<not> y \<le> YearFromTime t"
  then have "YearFromTime t < y" by simp
  from DayFromYear_mono [OF this] YearFromTime_bounds(2) [of t] a show False by simp
qed

lemma YearFromTime_mono: "t \<le> t' \<Longrightarrow> YearFromTime t \<le> YearFromTime t'"
  using YearFromTime_ge [of "YearFromTime t" t'] YearFromTime_bounds(1) [of t] by simp

lemma newDate_MakeDay: "newDate y m d = MakeDay (jsYear y) m d"
  by (simp add: newDate_def)

lemma newDate_add: "newDate y m (d + k) = newDate y m d + k"
  by (simp add: newDate_def MakeDay_add)

lemma jsYear_ge: "0 \<le> year \<Longrightarrow> 100 \<le> jsYear year"
  by (simp add: jsYear_def)

lemma newDate_of_fields:
  "100 \<le> YearFromTime t \<Longrightarrow> newDate (getFullYear t) (getMonth t) (getDate t + k) = t + k"
  by (simp add: newDate_def jsYear_def getFullYear_def getMonth_def getDate_def MakeDay_add MakeDay_inverse)


lemma DateFromTime_range:
  "1 \<le> DateFromTime t" "DateFromTime t \<le> daysInMonthOf (YearFromTime t) (MonthFromTime t)"
proof -
  define L where "L = InLeapYear t"
  define dw where "dw = DayWithinYear t"
  have L: "L = 0 \<or> L = 1" by (simp add: L_def InLeapYear_def)
  have diy: "DaysInYear (YearFromTime t) = 365 + L"
    using DaysInYear_cases [of "YearFromTime t"] by (auto simp: L_def InLeapYear_def)
  have dwr: "0 \<le> dw" "dw < 365 + L"
    using DayWithinYear_range [of t] by (simp_all add: dw_def diy)
  have leap: "(DaysInYear (YearFromTime t) = 366) = (L = 1)" using diy L by auto
  note mc = month_in_range_cases [OF MonthFromTime_range [of t]]
  have mdef: "MonthFromTime t =
      (if dw < 31 then 0 else if dw < 59 + L then 1 else if dw < 90 + L then 2
       else if dw < 120 + L then 3 else if dw < 151 + L then 4 else if dw < 181 + L then 5
       else if dw < 212 + L then 6 else if dw < 243 + L then 7 else if dw < 273 + L then 8
       else if dw < 304 + L then 9 else if dw < 334 + L then 10 else 11)"
    by (simp add: MonthFromTime_def Let_def dw_def L_def)
  have ddef: "DateFromTime t = dw + 1 - monthStartDay L (MonthFromTime t)"
    using DayWithinYear_split [of t] by (simp add: dw_def L_def)
  show "1 \<le> DateFromTime t"
    unfolding ddef using mc
    by (elim disjE) (use mdef dwr L in \<open>simp_all add: monthStartDay_def split: if_splits\<close>)
  show "DateFromTime t \<le> daysInMonthOf (YearFromTime t) (MonthFromTime t)"
    unfolding ddef daysInMonthOf_def leap using mc
    by (elim disjE) (use mdef dwr L in \<open>auto simp: monthStartDay_def split: if_splits\<close>)
qed



section \<open>Date strings\<close>

text \<open>
  Dates travel between the components and the service as strings \<^verbatim>\<open>YYYY-MM-DD\<close>.  A
  string is a list of characters; comparing two strings with \<open><\<close> is the lexicographic
  order on character codes, as \<^verbatim>\<open><\<close> on JavaScript strings.
\<close>

definition isDigit :: "char \<Rightarrow> bool" where
  "isDigit c \<longleftrightarrow> c \<in> set ''0123456789''"

definition digitChar :: "nat \<Rightarrow> char" where
  "digitChar n = ''0123456789'' ! n"

text \<open>The value of a digit character: its code less the code 48 of the character 0.\<close>

definition digitVal :: "char \<Rightarrow> nat" where
  "digitVal c = of_char c - 48"

text \<open>The decimal digits of a natural number; \<open>digitChar\<close> is only applied below 10.\<close>

function natToDigits :: "nat \<Rightarrow> string" where
  "natToDigits n =
     (if n < 10 then [digitChar n] else natToDigits (n div 10) @ [digitChar (n mod 10)])"
  by pat_completeness auto
termination
  by (relation "measure id") auto

declare natToDigits.simps [simp del]

text \<open>\<^verbatim>\<open>String(i)\<close>, also the text that a template literal makes of the integer \<open>i\<close>.\<close>

definition numberToString :: "int \<Rightarrow> string" where
  "numberToString i =
     (if i < 0 then CHR ''-'' # natToDigits (nat (- i)) else natToDigits (nat i))"

text \<open>\<^verbatim>\<open>s.padStart(2, "0")\<close>.\<close>

definition padStart2 :: "string \<Rightarrow> string" where
  "padStart2 s = replicate (2 - length s) (CHR ''0'') @ s"

text \<open>
  Modelled from the spec: \<^verbatim>\<open>formatYmdLocal\<close> of \<^verbatim>\<open>@/lib/date\<close> is imported by the calendar
  and cycle components, and its file is not among the sources.  The specification fixes
  its result as the \<^verbatim>\<open>YYYY-MM-DD\<close> string of the date in the caller's local calendar.  The
  definition is that of \<^verbatim>\<open>formatDate\<close> in the component AuthGate, which is among the
  sources: the year as it is, month and day padded to two digits.
\<close>

definition formatYmdLocal :: "Date \<Rightarrow> string" where
  "formatYmdLocal d =
     (let y = numberToString (getFullYear d);
          m = padStart2 (numberToString (getMonth d + 1));
          dd = padStart2 (numberToString (getDate d))
      in y @ ''-'' @ m @ ''-'' @ dd)"

text \<open>
  \<^verbatim>\<open>s.split(sep)\<close> for a separator of one character.  The result is never empty, so it is
  given as its first piece and the list of the pieces after it.
\<close>

fun splitOn :: "char \<Rightarrow> string \<Rightarrow> string \<times> string list" where
  "splitOn sep [] = ([], [])"
| "splitOn sep (c # cs) =
     (let (p, ps) = splitOn sep cs in if c = sep then ([], p # ps) else (c # p, ps))"

text \<open>
  \<^verbatim>\<open>Number(s)\<close> for a string of decimal digits; the empty string gives 0.  Every string that
  reaches \<^verbatim>\<open>parseYmdToLocalDate\<close> has passed \<^verbatim>\<open>isValidYmd\<close> or was made by
  \<^verbatim>\<open>formatYmdLocal\<close>, so its pieces between the dashes are strings of digits.
\<close>

definition NumberOfDigits :: "string \<Rightarrow> int" where
  "NumberOfDigits s = int (foldl (\<lambda>a c. 10 * a + digitVal c) 0 s)"

text \<open>
  \<^verbatim>\<open>parseYmdToLocalDate\<close>: the first three pieces are year, month and day; a missing month or
  day is 1 (\<^verbatim>\<open>m ?? 1\<close>, \<^verbatim>\<open>d ?? 1\<close>).  The result is the day of the local calendar of the
  \<^verbatim>\<open>Date\<close> object that the source returns.
\<close>

definition parseYmdToLocalDate :: "string \<Rightarrow> Date" where
  "parseYmdToLocalDate ymd =
     (case splitOn (CHR ''-'') ymd of
        (y, []) \<Rightarrow> newDate (NumberOfDigits y) (1 - 1) 1
      | (y, [m]) \<Rightarrow> newDate (NumberOfDigits y) (NumberOfDigits m - 1) 1
      | (y, m # d # rest) \<Rightarrow> newDate (NumberOfDigits y) (NumberOfDigits m - 1) (NumberOfDigits d))"

text \<open>The test of the regular expression \<^verbatim>\<open>/^\d{4}-\d{2}-\d{2}$/\<close>.\<close>

definition matchesYmd :: "string \<Rightarrow> bool" where
  "matchesYmd s \<longleftrightarrow>
     length s = 10 \<and> list_all isDigit (take 4 s) \<and> s ! 4 = CHR ''-''
     \<and> list_all isDigit (take 2 (drop 5 s)) \<and> s ! 7 = CHR ''-''
     \<and> list_all isDigit (drop 8 s)"

text \<open>\<^verbatim>\<open>isValidYmd\<close>: \<^verbatim>\<open>null\<close> and \<^verbatim>\<open>undefined\<close> are \<open>None\<close>; the empty string is falsy.\<close>

fun isValidYmd :: "string option \<Rightarrow> bool" where
  "isValidYmd None = False"
| "isValidYmd (Some ymd) = (ymd \<noteq> [] \<and> matchesYmd ymd)"

text \<open>The two-character field that \<^verbatim>\<open>formatYmdLocal\<close> makes of a month or a day.\<close>

definition twoDigits :: "int \<Rightarrow> string" where
  "twoDigits k = padStart2 (numberToString k)"

subsection \<open>Facts about date strings\<close>

lemma digit_cases:
  assumes "k < 10"
  shows "k \<in> {0, 1, 2, 3, 4, 5, 6, 7, 8, 9 :: nat}"
  using assms by auto

lemma digitChar_props:
  assumes "k < 10"
  shows "digitVal (digitChar k) = k" "isDigit (digitChar k)" "digitChar k \<noteq> CHR ''-''"
  using digit_cases [OF assms]
  by (elim insertE emptyE; simp add: digitChar_def digitVal_def isDigit_def)+

lemma natToDigits_digits: "list_all isDigit (natToDigits n)"
  by (induction n rule: natToDigits.induct)
    (subst natToDigits.simps, simp add: digitChar_props)

lemma isDigit_not_dash: "isDigit c \<Longrightarrow> c \<noteq> CHR ''-''"
  by (auto simp: isDigit_def)

lemma digits_no_dash: "list_all isDigit s \<Longrightarrow> CHR ''-'' \<notin> set s"
  by (auto simp: list_all_iff dest: isDigit_not_dash)

lemma NumberOfDigits_snoc:
  "NumberOfDigits (s @ [c]) = 10 * NumberOfDigits s + int (digitVal c)"
  by (simp add: NumberOfDigits_def)

lemma NumberOfDigits_single: "NumberOfDigits [c] = int (digitVal c)"
  by (simp add: NumberOfDigits_def)

lemma natToDigits_small: "n < 10 \<Longrightarrow> natToDigits n = [digitChar n]"
  by (subst natToDigits.simps) simp

lemma natToDigits_large:
  "\<not> n < 10 \<Longrightarrow> natToDigits n = natToDigits (n div 10) @ [digitChar (n mod 10)]"
  by (subst natToDigits.simps) simp

lemma NumberOfDigits_natToDigits: "NumberOfDigits (natToDigits n) = int n"
proof (induction n rule: natToDigits.induct)
  case (1 n)
  show ?case
  proof (cases "n < 10")
    case True
    then show ?thesis
      by (simp only: natToDigits_small NumberOfDigits_single digitChar_props)
  next
    case False
    have m: "n mod 10 < 10" by simp
    have "NumberOfDigits (natToDigits n)
        = 10 * NumberOfDigits (natToDigits (n div 10)) + int (digitVal (digitChar (n mod 10)))"
      by (simp only: natToDigits_large [OF False] NumberOfDigits_snoc)
    also have "\<dots> = 10 * int (n div 10) + int (n mod 10)"
      by (simp only: "1.IH" [OF False] digitChar_props(1) [OF m])
    also have "\<dots> = int (10 * (n div 10) + n mod 10)"
      by (simp only: of_nat_add of_nat_mult of_nat_numeral)
    also have "\<dots> = int n" by (simp only: mult_div_mod_eq)
    finally show ?thesis .
  qed
qed


lemma NumberOfDigits_zero_front: "NumberOfDigits (replicate k (CHR ''0'') @ s) = NumberOfDigits s"
  by (induction k) (simp_all add: NumberOfDigits_def digitVal_def)

lemma NumberOfDigits_padStart2: "NumberOfDigits (padStart2 s) = NumberOfDigits s"
  by (simp add: padStart2_def NumberOfDigits_zero_front)

lemma natToDigits_length: "n < 100 \<Longrightarrow> 1 \<le> length (natToDigits n) \<and> length (natToDigits n) \<le> 2"
proof (cases "n < 10")
  case True
  then show ?thesis by (simp add: natToDigits_small)
next
  case False
  assume "n < 100"
  then have "n div 10 < 10" by simp
  then show ?thesis by (simp add: natToDigits_large [OF False] natToDigits_small)
qed

lemma padStart2_length: "1 \<le> length s \<Longrightarrow> length s \<le> 2 \<Longrightarrow> length (padStart2 s) = 2"
  by (simp add: padStart2_def)

lemma isDigit_zero: "isDigit (CHR ''0'')"
  by (simp add: isDigit_def)

lemma padStart2_digits: "list_all isDigit s \<Longrightarrow> list_all isDigit (padStart2 s)"
  by (auto simp: padStart2_def list_all_iff isDigit_zero)

lemma splitOn_no_sep: "sep \<notin> set a \<Longrightarrow> splitOn sep a = (a, [])"
  by (induction a) auto

lemma splitOn_append:
  "sep \<notin> set a \<Longrightarrow> splitOn sep (a @ sep # rest) = (a, fst (splitOn sep rest) # snd (splitOn sep rest))"
  by (induction a) (auto simp: case_prod_beta)

lemma twoDigits_props:
  assumes "0 \<le> k" "k \<le> 99"
  shows "length (twoDigits k) = 2" "list_all isDigit (twoDigits k)" "NumberOfDigits (twoDigits k) = k"
proof -
  have n: "nat k < 100" using assms by simp
  have s: "numberToString k = natToDigits (nat k)" using assms by (simp add: numberToString_def)
  show "length (twoDigits k) = 2"
    unfolding twoDigits_def s using natToDigits_length [OF n] by (simp add: padStart2_length)
  show "list_all isDigit (twoDigits k)"
    unfolding twoDigits_def s by (rule padStart2_digits) (rule natToDigits_digits)
  show "NumberOfDigits (twoDigits k) = k"
    unfolding twoDigits_def s using assms
    by (simp add: NumberOfDigits_padStart2 NumberOfDigits_natToDigits)
qed

lemma formatYmdLocal_alt:
  "formatYmdLocal d = numberToString (YearFromTime d)
      @ CHR ''-'' # twoDigits (MonthFromTime d + 1) @ CHR ''-'' # twoDigits (DateFromTime d)"
  by (simp add: formatYmdLocal_def Let_def twoDigits_def getFullYear_def getMonth_def getDate_def)

lemma month_date_fields:
  "0 \<le> MonthFromTime d + 1" "MonthFromTime d + 1 \<le> 99" "0 \<le> DateFromTime d" "DateFromTime d \<le> 99"
  using MonthFromTime_range [of d] DateFromTime_range [of d]
    daysInMonthOf_range [of "YearFromTime d" "MonthFromTime d"] by simp_all

text \<open>Formatting a date from year 100 on and parsing the string gives the date back.\<close>

lemma parse_format_roundtrip:
  assumes "100 \<le> YearFromTime d"
  shows "parseYmdToLocalDate (formatYmdLocal d) = d"
proof -
  define Y where "Y = numberToString (YearFromTime d)"
  define M where "M = twoDigits (MonthFromTime d + 1)"
  define D where "D = twoDigits (DateFromTime d)"
  have Yn: "Y = natToDigits (nat (YearFromTime d))" using assms by (simp add: Y_def numberToString_def)
  have Yd: "CHR ''-'' \<notin> set Y" unfolding Yn by (rule digits_no_dash) (rule natToDigits_digits)
  have Yv: "NumberOfDigits Y = YearFromTime d"
    unfolding Yn using assms by (simp add: NumberOfDigits_natToDigits)
  note mp = twoDigits_props [OF month_date_fields(1,2) [of d], folded M_def]
  note dp = twoDigits_props [OF month_date_fields(3,4) [of d], folded D_def]
  have Md: "CHR ''-'' \<notin> set M" by (rule digits_no_dash) (rule mp(2))
  have Dd: "CHR ''-'' \<notin> set D" by (rule digits_no_dash) (rule dp(2))
  have "splitOn (CHR ''-'') (formatYmdLocal d) = (Y, [M, D])"
    unfolding formatYmdLocal_alt Y_def [symmetric] M_def [symmetric] D_def [symmetric]
    by (simp add: splitOn_append Yd Md splitOn_no_sep Dd)
  then have "parseYmdToLocalDate (formatYmdLocal d)
      = newDate (YearFromTime d) (MonthFromTime d) (DateFromTime d)"
    by (simp add: parseYmdToLocalDate_def Yv mp(3) dp(3))
  then show ?thesis
    using newDate_of_fields [OF assms, of 0]
    by (simp add: getFullYear_def getMonth_def getDate_def)
qed

lemma natToDigits_inj:
  assumes "natToDigits a = natToDigits b"
  shows "a = b"
proof -
  have "int a = NumberOfDigits (natToDigits a)" by (simp only: NumberOfDigits_natToDigits)
  also have "\<dots> = NumberOfDigits (natToDigits b)" by (simp only: assms)
  also have "\<dots> = int b" by (simp only: NumberOfDigits_natToDigits)
  finally show ?thesis by simp
qed

lemma numberToString_inj:
  assumes "numberToString a = numberToString b"
  shows "a = b"
proof -
  have nd: "CHR ''-'' \<notin> set (natToDigits n)" for n
    by (rule digits_no_dash) (rule natToDigits_digits)
  consider "a < 0" "b < 0" | "a < 0" "\<not> b < 0" | "\<not> a < 0" "b < 0" | "\<not> a < 0" "\<not> b < 0"
    by blast
  then show ?thesis
  proof cases
    case 1
    with assms have "natToDigits (nat (- a)) = natToDigits (nat (- b))"
      by (simp add: numberToString_def)
    then have "nat (- a) = nat (- b)" by (rule natToDigits_inj)
    with 1 show ?thesis by simp
  next
    case 2
    with assms have "natToDigits (nat b) = CHR ''-'' # natToDigits (nat (- a))"
      by (simp add: numberToString_def)
    then have "CHR ''-'' \<in> set (natToDigits (nat b))" by simp
    with nd show ?thesis by blast
  next
    case 3
    with assms have "natToDigits (nat a) = CHR ''-'' # natToDigits (nat (- b))"
      by (simp add: numberToString_def)
    then have "CHR ''-'' \<in> set (natToDigits (nat a))" by simp
    with nd show ?thesis by blast
  next
    case 4
    with assms have "natToDigits (nat a) = natToDigits (nat b)"
      by (simp add: numberToString_def)
    then have "nat a = nat b" by (rule natToDigits_inj)
    with 4 show ?thesis by simp
  qed
qed

lemma append_eq_same_length:
  "xs @ us = ys @ vs \<Longrightarrow> length us = length vs \<Longrightarrow> xs = ys \<and> us = vs"
  "xs @ us = ys @ vs \<Longrightarrow> length xs = length ys \<Longrightarrow> xs = ys \<and> us = vs"
  by simp_all

text \<open>Different dates have different strings.\<close>

lemma formatYmdLocal_inj:
  assumes "formatYmdLocal a = formatYmdLocal b"
  shows "a = b"
proof -
  note ma = twoDigits_props [OF month_date_fields(1,2) [of a]]
  note da = twoDigits_props [OF month_date_fields(3,4) [of a]]
  note mb = twoDigits_props [OF month_date_fields(1,2) [of b]]
  note db = twoDigits_props [OF month_date_fields(3,4) [of b]]
  define Ya where "Ya = numberToString (YearFromTime a)"
  define Yb where "Yb = numberToString (YearFromTime b)"
  define Ma where "Ma = twoDigits (MonthFromTime a + 1)"
  define Mb where "Mb = twoDigits (MonthFromTime b + 1)"
  define Da where "Da = twoDigits (DateFromTime a)"
  define Db where "Db = twoDigits (DateFromTime b)"
  have e: "Ya @ (CHR ''-'' # Ma @ CHR ''-'' # Da) = Yb @ (CHR ''-'' # Mb @ CHR ''-'' # Db)"
    using assms unfolding formatYmdLocal_alt Ya_def Yb_def Ma_def Mb_def Da_def Db_def .
  have lm: "length Ma = length Mb" by (simp only: Ma_def Mb_def ma(1) mb(1))
  have ld: "length Da = length Db" by (simp only: Da_def Db_def da(1) db(1))
  have l: "length (CHR ''-'' # Ma @ CHR ''-'' # Da) = length (CHR ''-'' # Mb @ CHR ''-'' # Db)"
    using lm ld by simp
  from append_eq_same_length(1) [OF e l]
  have y: "Ya = Yb" and r': "CHR ''-'' # Ma @ CHR ''-'' # Da = CHR ''-'' # Mb @ CHR ''-'' # Db"
    by blast+
  from r' have r: "Ma @ (CHR ''-'' # Da) = Mb @ (CHR ''-'' # Db)"
    by (simp only: list.inject simp_thms)
  from append_eq_same_length(2) [OF r lm]
  have m: "Ma = Mb" and d': "CHR ''-'' # Da = CHR ''-'' # Db"
    by blast+
  from d' have d: "Da = Db" by (simp only: list.inject simp_thms)
  have "YearFromTime a = YearFromTime b"
    using y unfolding Ya_def Yb_def by (rule numberToString_inj)
  moreover have "MonthFromTime a + 1 = MonthFromTime b + 1"
    using arg_cong [OF m, of NumberOfDigits] unfolding Ma_def Mb_def ma(3) mb(3) .
  moreover have "DateFromTime a = DateFromTime b"
    using arg_cong [OF d, of NumberOfDigits] unfolding Da_def Db_def da(3) db(3) .
  ultimately have "MakeDay (YearFromTime a) (MonthFromTime a) (DateFromTime a)
      = MakeDay (YearFromTime b) (MonthFromTime b) (DateFromTime b)"
    by simp
  then show ?thesis by (simp only: MakeDay_inverse)
qed

subsection \<open>The order of dates and the order of their strings\<close>

lemma month_of_day_mono:
  fixes d d' L :: int
  assumes "d \<le> d'"
  shows "(if d < 31 then 0 else if d < 59 + L then 1 else if d < 90 + L then 2
       else if d < 120 + L then 3 else if d < 151 + L then 4 else if d < 181 + L then 5
       else if d < 212 + L then 6 else if d < 243 + L then 7 else if d < 273 + L then 8
       else if d < 304 + L then 9 else if d < 334 + L then 10 else (11::int))
    \<le> (if d' < 31 then 0 else if d' < 59 + L then 1 else if d' < 90 + L then 2
       else if d' < 120 + L then 3 else if d' < 151 + L then 4 else if d' < 181 + L then 5
       else if d' < 212 + L then 6 else if d' < 243 + L then 7 else if d' < 273 + L then 8
       else if d' < 304 + L then 9 else if d' < 334 + L then 10 else 11)"
  using assms by auto

lemma fields_mono:
  assumes "a \<le> b"
  shows "YearFromTime a \<le> YearFromTime b"
    and "YearFromTime a = YearFromTime b \<Longrightarrow> MonthFromTime a \<le> MonthFromTime b"
    and "YearFromTime a = YearFromTime b \<Longrightarrow> MonthFromTime a = MonthFromTime b
         \<Longrightarrow> DateFromTime a \<le> DateFromTime b"
proof -
  show "YearFromTime a \<le> YearFromTime b" using assms by (rule YearFromTime_mono)
next
  assume y: "YearFromTime a = YearFromTime b"
  then have L: "InLeapYear a = InLeapYear b" by (simp add: InLeapYear_def)
  have d: "DayWithinYear a \<le> DayWithinYear b" using assms y by (simp add: DayWithinYear_def)
  show m: "MonthFromTime a \<le> MonthFromTime b"
    unfolding MonthFromTime_def Let_def L by (rule month_of_day_mono [OF d])
  assume "MonthFromTime a = MonthFromTime b"
  then show "DateFromTime a \<le> DateFromTime b"
    using DayWithinYear_split [of a] DayWithinYear_split [of b] d L by simp
qed

text \<open>Dates are ordered as their fields are, year first.\<close>

lemma date_less_iff_fields:
  "a < b \<longleftrightarrow>
     YearFromTime a < YearFromTime b
     \<or> YearFromTime a = YearFromTime b
        \<and> (MonthFromTime a < MonthFromTime b
           \<or> MonthFromTime a = MonthFromTime b \<and> DateFromTime a < DateFromTime b)"
  (is "_ \<longleftrightarrow> ?lex a b")
proof
  assume "a < b"
  then have le: "a \<le> b" and ne: "a \<noteq> b" by simp_all
  have "\<not> (YearFromTime a = YearFromTime b \<and> MonthFromTime a = MonthFromTime b
      \<and> DateFromTime a = DateFromTime b)"
    using MakeDay_inverse [of a] MakeDay_inverse [of b] ne by metis
  with fields_mono [OF le] show "?lex a b" by linarith
next
  assume l: "?lex a b"
  show "a < b"
  proof (rule ccontr)
    assume "\<not> a < b"
    then have "b \<le> a" by simp
    from fields_mono [OF this] l show False by linarith
  qed
qed

text \<open>Strings of digits of the same length are ordered as their numbers are.\<close>

lemma isDigit_code: "isDigit c \<Longrightarrow> 48 \<le> (of_char c :: nat) \<and> (of_char c :: nat) \<le> 57"
  unfolding isDigit_def by (simp only: set_simps) (elim insertE emptyE; simp)

lemma digit_less_iff: "isDigit c \<Longrightarrow> isDigit d \<Longrightarrow> c < d \<longleftrightarrow> digitVal c < digitVal d"
  using isDigit_code [of c] isDigit_code [of d] unfolding less_char_def digitVal_def by linarith

lemma digit_eq_iff: "isDigit c \<Longrightarrow> isDigit d \<Longrightarrow> c = d \<longleftrightarrow> digitVal c = digitVal d"
proof -
  assume c: "isDigit c" and d: "isDigit d"
  have "(of_char c :: nat) = of_char d" if "digitVal c = digitVal d"
    using that isDigit_code [OF c] isDigit_code [OF d] unfolding digitVal_def by linarith
  then have "c = d" if "digitVal c = digitVal d"
    using that by (simp only: of_char_eq_iff)
  then show ?thesis by auto
qed

lemma digitVal_less_10: "isDigit c \<Longrightarrow> digitVal c < 10"
  using isDigit_code [of c] unfolding digitVal_def by linarith

lemma NumberOfDigits_Nil: "NumberOfDigits [] = 0"
  by (simp add: NumberOfDigits_def)

lemma NumberOfDigits_Cons:
  "NumberOfDigits (c # s) = int (digitVal c) * 10 ^ length s + NumberOfDigits s"
proof (induction s rule: rev_induct)
  case Nil
  show ?case by (simp add: NumberOfDigits_def)
next
  case (snoc x xs)
  have "NumberOfDigits (c # xs @ [x]) = 10 * NumberOfDigits (c # xs) + int (digitVal x)"
    using NumberOfDigits_snoc [of "c # xs" x] by simp
  then show ?case by (simp add: snoc.IH NumberOfDigits_snoc algebra_simps)
qed

lemma NumberOfDigits_bound:
  "list_all isDigit s \<Longrightarrow> 0 \<le> NumberOfDigits s \<and> NumberOfDigits s < 10 ^ length s"
proof (induction s)
  case Nil
  show ?case by (simp add: NumberOfDigits_Nil)
next
  case (Cons c s)
  then have ih: "0 \<le> NumberOfDigits s" "NumberOfDigits s < 10 ^ length s"
    and c: "digitVal c < 10" by (simp_all add: digitVal_less_10)
  define p :: int where "p = 10 ^ length s"
  from c have "int (digitVal c) + 1 \<le> 10" by simp
  then have "(int (digitVal c) + 1) * p \<le> 10 * p"
    by (rule mult_right_mono) (simp add: p_def)
  then have e: "int (digitVal c) * p + p \<le> 10 * p" by (simp add: algebra_simps)
  have "0 \<le> int (digitVal c) * p" by (simp add: p_def)
  with ih e show ?case
    unfolding NumberOfDigits_Cons length_Cons power_Suc p_def [symmetric] by linarith
qed

lemma digits_less_iff:
  assumes "length s = length t" "list_all isDigit s" "list_all isDigit t"
  shows "s < t \<longleftrightarrow> NumberOfDigits s < NumberOfDigits t"
  using assms
proof (induction s t rule: list_induct2)
  case Nil
  show ?case by (simp add: NumberOfDigits_Nil)
next
  case (Cons c s d t)
  then have cd: "isDigit c" "isDigit d" and st: "list_all isDigit s" "list_all isDigit t" by simp_all
  note ih = Cons.IH [OF st]
  note bs = NumberOfDigits_bound [OF st(1)]
  note bt = NumberOfDigits_bound [OF st(2)]
  have len: "length t = length s" using Cons.hyps by simp
  define p :: int where "p = 10 ^ length s"
  have p: "0 < p" by (simp add: p_def)
  consider "digitVal c < digitVal d" | "digitVal c = digitVal d" | "digitVal d < digitVal c"
    by linarith
  then show ?case
  proof cases
    case 1
    then have "int (digitVal c) + 1 \<le> int (digitVal d)" by simp
    then have "(int (digitVal c) + 1) * p \<le> int (digitVal d) * p"
      using p by (simp add: mult_right_mono)
    then have "NumberOfDigits (c # s) < NumberOfDigits (d # t)"
      using bs bt by (simp add: NumberOfDigits_Cons len p_def [symmetric] algebra_simps)
    moreover have "c < d" using 1 cd by (simp add: digit_less_iff)
    ultimately show ?thesis by simp
  next
    case 2
    then have "c = d" using cd by (simp add: digit_eq_iff)
    then show ?thesis using ih by (simp add: NumberOfDigits_Cons len)
  next
    case 3
    then have "int (digitVal d) + 1 \<le> int (digitVal c)" by simp
    then have "(int (digitVal d) + 1) * p \<le> int (digitVal c) * p"
      using p by (simp add: mult_right_mono)
    then have "\<not> NumberOfDigits (c # s) < NumberOfDigits (d # t)"
      using bs bt by (simp add: NumberOfDigits_Cons len p_def [symmetric] algebra_simps)
    moreover have "d < c" using 3 cd by (simp add: digit_less_iff)
    then have "\<not> c < d" "c \<noteq> d" by auto
    ultimately show ?thesis by simp
  qed
qed

lemma append_less_iff:
  fixes xs ys us vs :: string
  assumes "length xs = length ys"
  shows "xs @ us < ys @ vs \<longleftrightarrow> xs < ys \<or> xs = ys \<and> us < vs"
  using assms by (induction xs ys rule: list_induct2) auto


lemma natToDigits_length_4:
  assumes "1000 \<le> n" "n \<le> 9999"
  shows "length (natToDigits n) = 4"
proof -
  have l: "length (natToDigits k) = (if k < 10 then 1 else Suc (length (natToDigits (k div 10))))"
    for k by (cases "k < 10") (simp_all add: natToDigits_small natToDigits_large)
  have a: "\<not> n < 10" "\<not> n div 10 < 10" "\<not> n div 10 div 10 < 10" "n div 10 div 10 div 10 < 10"
    using assms by (simp_all add: div_mult2_eq [symmetric])
  show ?thesis
    by (subst l, simp only: a if_False, subst l, simp only: a if_False,
        subst l, simp only: a if_False, subst l, simp only: a if_True)
qed

text \<open>For years of four digits the strings of two dates are ordered as the dates are.\<close>

lemma formatYmdLocal_less_iff:
  assumes ya: "1000 \<le> YearFromTime a" "YearFromTime a \<le> 9999"
    and yb: "1000 \<le> YearFromTime b" "YearFromTime b \<le> 9999"
  shows "formatYmdLocal a < formatYmdLocal b \<longleftrightarrow> a < b"
proof -
  note ma = twoDigits_props [OF month_date_fields(1,2) [of a]]
  note da = twoDigits_props [OF month_date_fields(3,4) [of a]]
  note mb = twoDigits_props [OF month_date_fields(1,2) [of b]]
  note db = twoDigits_props [OF month_date_fields(3,4) [of b]]
  define Ya where "Ya = natToDigits (nat (YearFromTime a))"
  define Yb where "Yb = natToDigits (nat (YearFromTime b))"
  define Ma where "Ma = twoDigits (MonthFromTime a + 1)"
  define Mb where "Mb = twoDigits (MonthFromTime b + 1)"
  define Da where "Da = twoDigits (DateFromTime a)"
  define Db where "Db = twoDigits (DateFromTime b)"
  have fa: "formatYmdLocal a = Ya @ (CHR ''-'' # Ma @ (CHR ''-'' # Da))"
    using ya by (simp add: formatYmdLocal_alt numberToString_def Ya_def Ma_def Da_def)
  have fb: "formatYmdLocal b = Yb @ (CHR ''-'' # Mb @ (CHR ''-'' # Db))"
    using yb by (simp add: formatYmdLocal_alt numberToString_def Yb_def Mb_def Db_def)
  have ly: "length Ya = length Yb"
    using ya yb by (simp add: Ya_def Yb_def natToDigits_length_4)
  have lm: "length Ma = length Mb" by (simp only: Ma_def Mb_def ma(1) mb(1))
  have ld: "length Da = length Db" by (simp only: Da_def Db_def da(1) db(1))
  have dy: "list_all isDigit Ya" "list_all isDigit Yb"
    by (simp_all only: Ya_def Yb_def natToDigits_digits)
  have vy: "NumberOfDigits Ya = YearFromTime a" "NumberOfDigits Yb = YearFromTime b"
    using ya yb by (simp_all add: Ya_def Yb_def NumberOfDigits_natToDigits)
  have vm: "NumberOfDigits Ma = MonthFromTime a + 1" "NumberOfDigits Mb = MonthFromTime b + 1"
    by (simp_all only: Ma_def Mb_def ma(3) mb(3))
  have vd: "NumberOfDigits Da = DateFromTime a" "NumberOfDigits Db = DateFromTime b"
    by (simp_all only: Da_def Db_def da(3) db(3))
  have dm: "list_all isDigit Ma" "list_all isDigit Mb" "list_all isDigit Da" "list_all isDigit Db"
    by (simp_all only: Ma_def Mb_def Da_def Db_def ma(2) mb(2) da(2) db(2))
  have eq_iff: "s = t \<longleftrightarrow> NumberOfDigits s = NumberOfDigits t"
    if "length s = length t" "list_all isDigit s" "list_all isDigit t" for s t
    using digits_less_iff [OF that] digits_less_iff [OF that(1) [symmetric] that(3) that(2)]
    by (metis less_irrefl not_less_iff_gr_or_eq)
  have Y: "Ya < Yb \<longleftrightarrow> YearFromTime a < YearFromTime b"
    "Ya = Yb \<longleftrightarrow> YearFromTime a = YearFromTime b"
    using digits_less_iff [OF ly dy] eq_iff [OF ly dy] by (simp_all only: vy)
  have M: "Ma < Mb \<longleftrightarrow> MonthFromTime a < MonthFromTime b"
    "Ma = Mb \<longleftrightarrow> MonthFromTime a = MonthFromTime b"
    using digits_less_iff [OF lm dm(1,2)] eq_iff [OF lm dm(1,2)] unfolding vm by linarith+
  have D: "Da < Db \<longleftrightarrow> DateFromTime a < DateFromTime b"
    using digits_less_iff [OF ld dm(3,4)] by (simp only: vd)
  have "formatYmdLocal a < formatYmdLocal b
      \<longleftrightarrow> Ya < Yb \<or> Ya = Yb \<and> (Ma < Mb \<or> Ma = Mb \<and> Da < Db)"
    unfolding fa fb
    by (simp only: append_less_iff [OF ly] append_less_iff [OF lm] Cons_less_Cons
        less_irrefl simp_thms)
  then show ?thesis
    unfolding Y M D date_less_iff_fields [of a b] .
qed

text \<open>The string of a date built by the constructor from a month and a day of that month.\<close>

lemma formatYmdLocal_newDate:
  assumes "0 \<le> m" "m \<le> 11" "1 \<le> d" "d \<le> daysInMonthOf (jsYear y) m"
  shows "formatYmdLocal (newDate y m d)
     = numberToString (jsYear y) @ CHR ''-'' # twoDigits (m + 1) @ CHR ''-'' # twoDigits d"
proof -
  have m: "m div 12 = 0" "m mod 12 = m" using assms(1,2) by simp_all
  have r: "d \<le> daysInMonthOf (jsYear y + m div 12) (m mod 12)"
    using assms(4) by (simp only: m add_0_right)
  have f: "YearFromTime (newDate y m d) = jsYear y" "MonthFromTime (newDate y m d) = m"
    "DateFromTime (newDate y m d) = d"
    using MakeDay_fields [OF assms(3) r] unfolding newDate_MakeDay m by simp_all
  show ?thesis unfolding formatYmdLocal_alt f ..
qed

section \<open>Metric visibility filter (CalendarCell.tsx)\<close>

text \<open>
  The sort selection of the calendar page.  The TypeScript type is the union
  \<^verbatim>\<open>{category: "none", direction: null} | {category: sleep|stress|skincare, direction: good|bad}\<close>.
  The record below admits every combination of the two fields, so a statement made for
  all values of the record covers the union and the combinations outside it.
\<close>

datatype Metric = Sleep | Stress | Skincare

datatype SortCategory = CatNone | Cat Metric

datatype SortDirection = Good | Bad

record SortState =
  category :: SortCategory
  direction :: "SortDirection option"

text \<open>The summary of one day, as \<^verbatim>\<open>DailySummary\<close> in CalendarPage.tsx.  Scores are integers.\<close>

record DailySummary =
  sleepQuality :: int
  stressLevel :: int
  skinCondition :: int
  skincareEffort :: int
  memo :: string
  prefecture :: string

text \<open>\<^verbatim>\<open>scoreMap[metric]\<close> of \<^verbatim>\<open>isIconVisible\<close>.\<close>

fun scoreMap :: "DailySummary \<Rightarrow> Metric \<Rightarrow> int" where
  "scoreMap summary Sleep = sleepQuality summary"
| "scoreMap summary Stress = stressLevel summary"
| "scoreMap summary Skincare = skincareEffort summary"

text \<open>
  \<^verbatim>\<open>isIconVisible(summary, sortState, metric)\<close>: the checks in the order of the source.
  A missing summary is \<open>None\<close>.  The last line of the source, \<^verbatim>\<open>return score <= 2\<close>,
  is reached for every direction other than \<^verbatim>\<open>"good"\<close>.
\<close>

fun isIconVisible :: "DailySummary option \<Rightarrow> SortState \<Rightarrow> Metric \<Rightarrow> bool" where
  "isIconVisible None sortState metric = False"
| "isIconVisible (Some summary) sortState metric =
     (let score = scoreMap summary metric in
      if score = 3 then False
      else if category sortState = CatNone then True
      else if category sortState \<noteq> Cat metric then False
      else if direction sortState = Some Good then score \<ge> 4
      else score \<le> 2)"

section \<open>Daily records of the visible month (CalendarPage.tsx)\<close>

text \<open>
  One element of \<^verbatim>\<open>data.records\<close>.  A field that is \<^verbatim>\<open>null\<close> or missing is \<open>None\<close>.
  The three prefecture fields are kept as the strings that \<^verbatim>\<open>String(...)\<close> makes of them.
\<close>

record RecordItem =
  date :: string
  sleep :: "int option"
  stress :: "int option"
  skin_condition :: "int option"
  skincare_effort :: "int option"
  memo_in :: "string option"
  prefecture_code :: "string option"
  prefecture_in :: "string option"
  env_pref_code :: "string option"

text \<open>The operator \<^verbatim>\<open>a ?? b\<close>.\<close>

fun nullish :: "'a option \<Rightarrow> 'a \<Rightarrow> 'a" where
  "nullish None b = b"
| "nullish (Some a) b = a"

text \<open>The object literal that \<^verbatim>\<open>fetchMonthlyRecords\<close> and \<^verbatim>\<open>onSaved\<close> build from a record.\<close>

definition toSummary :: "RecordItem \<Rightarrow> DailySummary" where
  "toSummary r =
     \<lparr> sleepQuality = nullish (sleep r) 0,
       stressLevel = nullish (stress r) 0,
       skinCondition = nullish (skin_condition r) 0,
       skincareEffort = nullish (skincare_effort r) 0,
       memo = nullish (memo_in r) [],
       prefecture =
         (case prefecture_code r of Some p \<Rightarrow> p
          | None \<Rightarrow> (case prefecture_in r of Some p \<Rightarrow> p
             | None \<Rightarrow> nullish (env_pref_code r) [])) \<rparr>"

text \<open>
  The loop \<^verbatim>\<open>records.forEach\<close>: a record with an empty date is skipped, a later record
  overwrites an earlier one with the same date.
\<close>

fun recordsToMap :: "RecordItem list \<Rightarrow> (string \<rightharpoonup> DailySummary) \<Rightarrow> (string \<rightharpoonup> DailySummary)" where
  "recordsToMap [] m = m"
| "recordsToMap (r # rs) m =
     (if date r = [] then recordsToMap rs m
      else recordsToMap rs (m(date r \<mapsto> toSummary r)))"

text \<open>The raw value of a metric in a fetched record, before \<^verbatim>\<open>?? 0\<close> is applied.\<close>

fun rawMetric :: "RecordItem \<Rightarrow> Metric \<Rightarrow> int option" where
  "rawMetric r Sleep = sleep r"
| "rawMetric r Stress = stress r"
| "rawMetric r Skincare = skincare_effort r"

section \<open>Fetching the data of the visible month (CalendarPage.tsx)\<close>

text \<open>
  What a call of \<^verbatim>\<open>authFetch\<close> followed by \<^verbatim>\<open>res.json()\<close> can come to: \<^verbatim>\<open>authFetch\<close> throws
  (no signed-in user, no network), the response is not \<^verbatim>\<open>ok\<close>, reading the body throws,
  or the body is read.  The part of the body that the caller uses is the payload.
\<close>

datatype 'a FetchResult = FetchThrew | ResNotOk | JsonThrew | ResOk 'a

datatype CalendarError = RecordsFetchFailed

text \<open>The state hooks of the calendar page that the two fetch effects write.\<close>

record CalendarPageState =
  recordsByDate :: "string \<rightharpoonup> DailySummary"
  menstruationByDate :: "string \<rightharpoonup> bool"
  isLoading :: bool
  fetchError :: "CalendarError option"

text \<open>
  The effect \<^verbatim>\<open>fetchMonthlyRecords\<close> for the visible \<open>year\<close> and \<open>month\<close>; \<open>now\<close> is the
  day of the local calendar on which it runs (only the string of that day is used) and
  \<open>res\<close> what the request comes to, with \<^verbatim>\<open>data.records\<close> as payload (\<open>None\<close> when it is
  not an array).  The result is the state after the effect and the
  range \<^verbatim>\<open>(start_date, end_date)\<close> of the request, if one was made.  A month that lies
  wholly in the future clears the records without a request.  A failure of the request
  sets the error and leaves \<^verbatim>\<open>recordsByDate\<close> as it was.
\<close>

definition fetchMonthlyRecords ::
    "int \<Rightarrow> int \<Rightarrow> Date \<Rightarrow> RecordItem list option FetchResult \<Rightarrow> CalendarPageState
      \<Rightarrow> CalendarPageState \<times> (string \<times> string) option" where
  "fetchMonthlyRecords year month now res st =
     (let st1 = st\<lparr> isLoading := True, fetchError := None \<rparr>;
          from = formatYmdLocal (newDate year month 1);
          lastDayOfMonth = newDate year (month + 1) 0;
          to = formatYmdLocal lastDayOfMonth;
          todayYmd = formatYmdLocal now
      in if from > todayYmd
         then (st1\<lparr> recordsByDate := Map.empty, isLoading := False \<rparr>, None)
         else
           let to = (if to > todayYmd then todayYmd else to) in
           (case res of
              ResOk payload \<Rightarrow>
                let records = (case payload of Some rs \<Rightarrow> rs | None \<Rightarrow> []) in
                (st1\<lparr> recordsByDate := recordsToMap records Map.empty, isLoading := False \<rparr>,
                 Some (from, to))
            | _ \<Rightarrow>
                (st1\<lparr> fetchError := Some RecordsFetchFailed, isLoading := False \<rparr>,
                 Some (from, to))))"

section \<open>Time values and the time zone of the browser\<close>

text \<open>
  A \<^verbatim>\<open>Date\<close> object holds a time value, the milliseconds since the start of 1970 in UTC,
  and two \<^verbatim>\<open>Date\<close> objects are compared by their time values.  The constructor and the
  methods that the components call work in local time.  The day numbers of the sections
  above are the days of the local calendar: \<open>Day\<close> of a local time.
\<close>

type_synonym Time = int

definition msPerDay :: int where
  "msPerDay = 86400000"

definition msPerHour :: int where
  "msPerHour = 3600000"

definition Day :: "Time \<Rightarrow> Date" where
  "Day t = t div msPerDay"

definition TimeWithinDay :: "Time \<Rightarrow> int" where
  "TimeWithinDay t = t mod msPerDay"

definition MakeDate :: "Date \<Rightarrow> int \<Rightarrow> Time" where
  "MakeDate day time = day * msPerDay + time"

text \<open>
  The time zone is that of the browser and a parameter here: the offset of its standard
  time from UTC in milliseconds, and its periods of summer time, in which the clocks are
  one hour ahead of standard time.  A period is given in UTC by its first instant and the
  first instant after it.
\<close>

record Zone =
  standardOffset :: int
  summerTime :: "(Time \<times> Time) list"

definition offsetAt :: "Zone \<Rightarrow> Time \<Rightarrow> int" where
  "offsetAt z u =
     standardOffset z
       + (if list_ex (\<lambda>(a, b). a \<le> u \<and> u < b) (summerTime z) then msPerHour else 0)"

definition LocalTime :: "Zone \<Rightarrow> Time \<Rightarrow> Time" where
  "LocalTime z u = u + offsetAt z u"

text \<open>
  From a local time to UTC (\<^verbatim>\<open>UTC(t)\<close> of ECMAScript).  The instants whose local time is
  \<open>t\<close> are listed with the earliest first, and the first one is taken.  When there is
  none, the local time \<open>t\<close> was skipped when the clocks were put forward; it is read with
  the offset that was in force before the change, which is the standard offset.
\<close>

definition possibleInstants :: "Zone \<Rightarrow> Time \<Rightarrow> Time list" where
  "possibleInstants z t =
     filter (\<lambda>u. LocalTime z u = t) [t - standardOffset z - msPerHour, t - standardOffset z]"

definition UTC :: "Zone \<Rightarrow> Time \<Rightarrow> Time" where
  "UTC z t = (case possibleInstants z t of u # us \<Rightarrow> u | [] \<Rightarrow> t - standardOffset z)"

text \<open>
  The day of the local calendar on which a \<^verbatim>\<open>Date\<close> object lies; \<^verbatim>\<open>getFullYear\<close>,
  \<^verbatim>\<open>getMonth\<close> and \<^verbatim>\<open>getDate\<close> of the object are those of this day.
\<close>

definition localDate :: "Zone \<Rightarrow> Time \<Rightarrow> Date" where
  "localDate z t = Day (LocalTime z t)"

text \<open>
  The \<^verbatim>\<open>Date\<close> object that the constructor makes for a day of the local calendar:
  \<^verbatim>\<open>new Date(y, m, d)\<close> is \<open>dateAt z (newDate y m d)\<close>, local midnight of that day.
\<close>

definition dateAt :: "Zone \<Rightarrow> Date \<Rightarrow> Time" where
  "dateAt z d = UTC z (MakeDate d 0)"

text \<open>\<^verbatim>\<open>setDate(dt)\<close>: the day of the month is replaced, the local time of day is kept.\<close>

definition setDateAt :: "Zone \<Rightarrow> Time \<Rightarrow> int \<Rightarrow> Time" where
  "setDateAt z t dt =
     (let lt = LocalTime z t in UTC z (MakeDate (setDate (Day lt) dt) (TimeWithinDay lt)))"

subsection \<open>A step to the next day moves forward\<close>

lemma offsetAt_cases:
  "offsetAt z u = standardOffset z \<or> offsetAt z u = standardOffset z + msPerHour"
  by (simp add: offsetAt_def)

lemma LocalTime_bounds:
  "u + standardOffset z \<le> LocalTime z u" "LocalTime z u \<le> u + standardOffset z + msPerHour"
  using offsetAt_cases [of z u] by (auto simp: LocalTime_def msPerHour_def)

lemma UTC_bounds:
  "t - standardOffset z - msPerHour \<le> UTC z t" "UTC z t \<le> t - standardOffset z"
  by (simp_all add: UTC_def possibleInstants_def msPerHour_def)

lemma MakeDate_next: "MakeDate (Day t + 1) (TimeWithinDay t) = t + msPerDay"
  by (simp add: MakeDate_def Day_def TimeWithinDay_def algebra_simps)

lemma setDateAt_next:
  "setDateAt z cur (getDate (localDate z cur) + 1) = UTC z (LocalTime z cur + msPerDay)"
  by (simp add: setDateAt_def Let_def localDate_def setDate_next MakeDate_next)

lemma setDateAt_advances: "cur < setDateAt z cur (getDate (localDate z cur) + 1)"
  using UTC_bounds(1) [of "LocalTime z cur + msPerDay" z] LocalTime_bounds(1) [of cur z]
  by (simp add: setDateAt_next msPerDay_def msPerHour_def)

subsection \<open>The constructor and the local calendar\<close>

lemma Day_MakeDate:
  assumes "0 \<le> time" "time < msPerDay"
  shows "Day (MakeDate d time) = d"
  using assms by (simp add: Day_def MakeDate_def msPerDay_def)

lemma LocalTime_UTC:
  "LocalTime z (UTC z t) = t \<or> LocalTime z (UTC z t) = t + msPerHour"
proof (cases "possibleInstants z t")
  case Nil
  then have "LocalTime z (t - standardOffset z) \<noteq> t"
    by (auto simp: possibleInstants_def split: if_splits)
  then have "LocalTime z (t - standardOffset z) = t + msPerHour"
    using offsetAt_cases [of z "t - standardOffset z"] by (auto simp: LocalTime_def)
  then show ?thesis by (simp add: UTC_def Nil)
next
  case (Cons u us)
  then have "u \<in> set (possibleInstants z t)" by simp
  then have "LocalTime z u = t" unfolding possibleInstants_def set_filter by simp
  then show ?thesis by (simp add: UTC_def Cons)
qed

lemma localDate_dateAt: "localDate z (dateAt z d) = d"
  using LocalTime_UTC [of z "MakeDate d 0"] Day_MakeDate [of 0 d] Day_MakeDate [of msPerHour d]
  by (auto simp: localDate_def dateAt_def MakeDate_def msPerDay_def msPerHour_def)

section \<open>Menstruation flags from the cycle list (CalendarPage.tsx)\<close>

text \<open>One element of \<^verbatim>\<open>json.cycles\<close>; a field that is \<^verbatim>\<open>null\<close> or missing is \<open>None\<close>.\<close>

record CycleItem =
  start_date :: "string option"
  end_date :: "string option"

text \<open>
  The loop \<^verbatim>\<open>while (cur <= end)\<close> over \<^verbatim>\<open>Date\<close> objects: it marks the key of \<open>cur\<close> and
  moves \<open>cur\<close> on by \<^verbatim>\<open>cur.setDate(cur.getDate() + 1)\<close>, which keeps the local time of day
  of \<open>cur\<close>.
\<close>

function fillDays :: "Zone \<Rightarrow> Time \<Rightarrow> Time \<Rightarrow> (string \<rightharpoonup> bool) \<Rightarrow> (string \<rightharpoonup> bool)" where
  "fillDays z cur end m =
     (if cur \<le> end
      then fillDays z (setDateAt z cur (getDate (localDate z cur) + 1)) end
             (m(formatYmdLocal (localDate z cur) \<mapsto> True))
      else m)"
  by pat_completeness auto
termination
proof (relation "measure (\<lambda>(z, cur, end, m). nat (end + 1 - cur))")
  show "wf (measure (\<lambda>(z, cur, end, m). nat (end + 1 - cur)))" by simp
next
  fix z :: Zone and cur "end" :: Time and m :: "string \<rightharpoonup> bool"
  assume "cur \<le> end"
  then show "((z, setDateAt z cur (getDate (localDate z cur) + 1), end,
        m(formatYmdLocal (localDate z cur) \<mapsto> True)), z, cur, end, m)
      \<in> measure (\<lambda>(z, cur, end, m). nat (end + 1 - cur))"
    using setDateAt_advances [of cur z] by simp
qed

declare fillDays.simps [simp del]

text \<open>\<^verbatim>\<open>parseYmdToLocalDate\<close> as the \<^verbatim>\<open>Date\<close> object it returns.\<close>

definition parseYmdAt :: "Zone \<Rightarrow> string \<Rightarrow> Time" where
  "parseYmdAt z ymd = dateAt z (parseYmdToLocalDate ymd)"

text \<open>
  The body of \<^verbatim>\<open>cycles.forEach\<close> for one cycle \<open>c\<close>, writing into the map \<open>m\<close>.  A start
  date that fails \<^verbatim>\<open>isValidYmd\<close> ends the body at once.  An end date that fails it is
  replaced by today or the last day of the month, whichever is earlier.
\<close>

definition markCycle ::
    "Zone \<Rightarrow> Time \<Rightarrow> Time \<Rightarrow> Time \<Rightarrow> CycleItem \<Rightarrow> (string \<rightharpoonup> bool) \<Rightarrow> (string \<rightharpoonup> bool)" where
  "markCycle z fromDate toDate todayDate c m =
     (case start_date c of
        None \<Rightarrow> m
      | Some startYmd \<Rightarrow>
          if \<not> isValidYmd (Some startYmd) then m
          else
            let cycleStart = parseYmdAt z startYmd;
                openEnd = (if todayDate < toDate then todayDate else toDate);
                cycleEnd = (case end_date c of
                              None \<Rightarrow> openEnd
                            | Some endYmd \<Rightarrow>
                                if isValidYmd (Some endYmd) then parseYmdAt z endYmd
                                else openEnd);
                start = (if cycleStart > fromDate then cycleStart else fromDate);
                end = (if cycleEnd < toDate then cycleEnd else toDate)
            in if end < start then m
               else fillDays z
                      (dateAt z (newDate (getFullYear (localDate z start))
                         (getMonth (localDate z start)) (getDate (localDate z start))))
                      end m)"

fun forEachCycle ::
    "Zone \<Rightarrow> Time \<Rightarrow> Time \<Rightarrow> Time \<Rightarrow> CycleItem list \<Rightarrow> (string \<rightharpoonup> bool)
      \<Rightarrow> (string \<rightharpoonup> bool)" where
  "forEachCycle z fromDate toDate todayDate [] m = m"
| "forEachCycle z fromDate toDate todayDate (c # cs) m =
     forEachCycle z fromDate toDate todayDate cs (markCycle z fromDate toDate todayDate c m)"

text \<open>
  The effect \<^verbatim>\<open>fetchMenstruationFromCycles\<close> in the time zone \<open>z\<close>; \<open>now\<close> is the time value
  of \<^verbatim>\<open>new Date()\<close> and the payload of \<open>res\<close> is \<^verbatim>\<open>json.cycles\<close> (\<open>None\<close> when it is not
  an array).  Every failure sets the empty map.
\<close>

definition fetchMenstruationFromCycles ::
    "Zone \<Rightarrow> int \<Rightarrow> int \<Rightarrow> Time \<Rightarrow> CycleItem list option FetchResult \<Rightarrow> CalendarPageState
      \<Rightarrow> CalendarPageState" where
  "fetchMenstruationFromCycles z year month now res st =
     (let fromYmd = formatYmdLocal (localDate z (dateAt z (newDate year month 1)));
          lastDayOfMonth = dateAt z (newDate year (month + 1) 0);
          toYmd = formatYmdLocal (localDate z lastDayOfMonth);
          fromDate = parseYmdAt z fromYmd;
          toDate = parseYmdAt z toYmd;
          todayYmd = formatYmdLocal (localDate z now);
          todayDate = parseYmdAt z todayYmd
      in case res of
           FetchThrew \<Rightarrow> st\<lparr> menstruationByDate := Map.empty \<rparr>
         | ResNotOk \<Rightarrow> st\<lparr> menstruationByDate := Map.empty \<rparr>
         | JsonThrew \<Rightarrow> st\<lparr> menstruationByDate := Map.empty \<rparr>
         | ResOk payload \<Rightarrow>
             let cycles = (case payload of Some cs \<Rightarrow> cs | None \<Rightarrow> []);
                 m = forEachCycle z fromDate toDate todayDate cycles Map.empty
             in st\<lparr> menstruationByDate := m \<rparr>)"

text \<open>
  Two time zones.  Japan has standard time all year.  In Sao Paulo standard time is three
  hours behind UTC, and the summer time of 2018 began on 4 November at local midnight
  (03:00 UTC) and ended on 17 February 2019 (02:00 UTC), so that 4 November had no
  midnight: the clocks went from 23:59 to 01:00.
\<close>

definition tokyo :: Zone where
  "tokyo = \<lparr> standardOffset = 32400000, summerTime = [] \<rparr>"

definition saoPaulo :: Zone where
  "saoPaulo = \<lparr> standardOffset = - 10800000, summerTime = [(1541300400000, 1550368800000)] \<rparr>"

text \<open>
  \<^verbatim>\<open>hasMenstruation\<close> of a cell in CalendarGrid.tsx: \<^verbatim>\<open>!!menstruationByDate[key]\<close>, where
  the key is the string of the cell's day of the local calendar.
\<close>

definition hasMenstruation :: "(string \<rightharpoonup> bool) \<Rightarrow> Date \<Rightarrow> bool" where
  "hasMenstruation m d \<longleftrightarrow> m (formatYmdLocal d) = Some True"

text \<open>\<^verbatim>\<open>summary\<close> of a cell in CalendarGrid.tsx: \<^verbatim>\<open>recordsByDate[key]\<close>.\<close>

definition summaryOf :: "(string \<rightharpoonup> DailySummary) \<Rightarrow> Date \<Rightarrow> DailySummary option" where
  "summaryOf records d = records (formatYmdLocal d)"

subsection \<open>The words of the specification about cycles\<close>

text \<open>
  The first and the last day of the visible month, a cycle whose dates are well formed,
  the date its start string denotes, and its effective end: the end date of a closed
  cycle, and for an open cycle today or the last day of the month, whichever is earlier.
\<close>

definition firstDayOf :: "int \<Rightarrow> int \<Rightarrow> Date" where
  "firstDayOf year month = newDate year month 1"

definition lastDayOf :: "int \<Rightarrow> int \<Rightarrow> Date" where
  "lastDayOf year month = newDate year (month + 1) 0"

definition wellFormedCycle :: "CycleItem \<Rightarrow> bool" where
  "wellFormedCycle c \<longleftrightarrow>
     isValidYmd (start_date c) \<and> (end_date c = None \<or> isValidYmd (end_date c))"

definition cycleStartDate :: "CycleItem \<Rightarrow> Date" where
  "cycleStartDate c = (case start_date c of Some s \<Rightarrow> parseYmdToLocalDate s | None \<Rightarrow> 0)"

definition effectiveEnd :: "Date \<Rightarrow> Date \<Rightarrow> CycleItem \<Rightarrow> Date" where
  "effectiveEnd today lastDay c =
     (case end_date c of Some e \<Rightarrow> parseYmdToLocalDate e | None \<Rightarrow> min today lastDay)"

text \<open>
  A year and month that the page can show: the month is what \<^verbatim>\<open>getMonth\<close> returns, the
  year is not negative and the whole grid lies within the range of \<^verbatim>\<open>Date\<close>.
\<close>

definition valid_ym :: "int \<Rightarrow> int \<Rightarrow> bool" where
  "valid_ym year month \<longleftrightarrow> 0 \<le> month \<and> month \<le> 11 \<and> 0 \<le> year \<and> year \<le> 275759"

section \<open>The calendar grid (CalendarPage.tsx)\<close>

record CalendarDay =
  cellDate :: Date
  inCurrentMonth :: bool

datatype js_error = TypeError

text \<open>
  The first loop of \<^verbatim>\<open>days\<close>: \<^verbatim>\<open>for (let i = firstWeekday - 1; i >= 0; i--)\<close> pushes the
  last days of the previous month.
\<close>

function pushPrevMonth ::
    "int \<Rightarrow> int \<Rightarrow> int \<Rightarrow> int \<Rightarrow> CalendarDay list \<Rightarrow> CalendarDay list" where
  "pushPrevMonth year month prevMonthLastDay i result =
     (if i \<ge> 0
      then pushPrevMonth year month prevMonthLastDay (i - 1)
             (result @ [\<lparr> cellDate = newDate year (month - 1) (prevMonthLastDay - i),
                          inCurrentMonth = False \<rparr>])
      else result)"
  by pat_completeness auto
termination
  by (relation "measure (\<lambda>(year, month, p, i, result). nat (i + 1))") auto

text \<open>The second loop: \<^verbatim>\<open>for (let d = 1; d <= daysInMonth; d++)\<close> pushes the month itself.\<close>

function pushCurrentMonth ::
    "int \<Rightarrow> int \<Rightarrow> int \<Rightarrow> int \<Rightarrow> CalendarDay list \<Rightarrow> CalendarDay list" where
  "pushCurrentMonth year month daysInMonth d result =
     (if d \<le> daysInMonth
      then pushCurrentMonth year month daysInMonth (d + 1)
             (result @ [\<lparr> cellDate = newDate year month d, inCurrentMonth = True \<rparr>])
      else result)"
  by pat_completeness auto
termination
  by (relation "measure (\<lambda>(year, month, n, d, result). nat (n + 1 - d))") auto

text \<open>
  The third loop: \<^verbatim>\<open>while (result.length < 42)\<close> pushes the day after the last one.
  Reading the last element of an empty array is a \<^verbatim>\<open>TypeError\<close>.
\<close>

function fillTo42 :: "CalendarDay list \<Rightarrow> js_error + CalendarDay list" where
  "fillTo42 result =
     (if length result < 42
      then (if result = [] then Inl TypeError
            else let lastd = cellDate (last result);
                     next = newDate (getFullYear lastd) (getMonth lastd) (getDate lastd + 1)
                 in fillTo42 (result @ [\<lparr> cellDate = next, inCurrentMonth = False \<rparr>]))
      else Inr result)"
  by pat_completeness auto
termination
  by (relation "measure (\<lambda>result. 42 - length result)") auto

declare pushPrevMonth.simps [simp del] pushCurrentMonth.simps [simp del] fillTo42.simps [simp del]

text \<open>The memoised list \<^verbatim>\<open>days\<close> of the page, for the visible \<open>year\<close> and \<open>month\<close>.\<close>

definition days :: "int \<Rightarrow> int \<Rightarrow> js_error + CalendarDay list" where
  "days year month =
     (let firstDayOfMonth = newDate year month 1;
          lastDayOfMonth = newDate year (month + 1) 0;
          firstWeekday = getDay firstDayOfMonth;
          daysInMonth = getDate lastDayOfMonth;
          result = (if firstWeekday > 0
                    then pushPrevMonth year month (getDate (newDate year month 0))
                           (firstWeekday - 1) []
                    else []);
          result = pushCurrentMonth year month daysInMonth 1 result
      in fillTo42 result)"

text \<open>A run of \<open>n\<close> cells on consecutive days from \<open>base\<close>, used to state the shape of the grid.\<close>

definition run :: "Date \<Rightarrow> bool \<Rightarrow> nat \<Rightarrow> CalendarDay list" where
  "run base flag n = map (\<lambda>k. \<lparr> cellDate = base + int k, inCurrentMonth = flag \<rparr>) [0..<n]"

section \<open>The cycle screen (CyclesScreen.tsx)\<close>

text \<open>
  A cycle as the screen holds it.  The fields are \<^verbatim>\<open>cycle_id\<close>, \<^verbatim>\<open>start_date\<close> and
  \<^verbatim>\<open>end_date\<close> of the source; a cycle is open when its end date is \<^verbatim>\<open>null\<close>.
\<close>

record CycleLog =
  cycle_id :: string
  log_start_date :: string
  log_end_date :: "string option"

text \<open>
  The texts that the screen shows, by what they say: the error texts set with
  \<^verbatim>\<open>setError\<close> and the notices set with \<^verbatim>\<open>setMessage\<close>, which quote a draft.
\<close>

datatype ErrorMsg =
    ErrLoadFailed | ErrStartRequired | ErrStartFuture | ErrEndBeforeStart
  | ErrEndRequired | ErrEndFuture | ErrDatesFuture
  | ErrStartRegisterFailed | ErrStartUpdateFailed | ErrEndRegisterFailed | ErrUpdateFailed

datatype InfoMsg =
    MsgStartRegistered string | MsgStartUpdated string | MsgEndRegistered string | MsgUpdated

text \<open>
  The requests of the screen: \<^verbatim>\<open>GET /cycles?limit=6\<close>, \<^verbatim>\<open>POST /cycles\<close> with a start date
  (the end date is always \<^verbatim>\<open>null\<close>), \<^verbatim>\<open>PATCH /cycles/{id}\<close> with start and end date, and
  \<^verbatim>\<open>PATCH /cycles/end\<close> with an end date.  A mutating request fails when \<^verbatim>\<open>authFetch\<close>
  throws or the response is not \<^verbatim>\<open>ok\<close>.
\<close>

datatype Request =
    GetCycles
  | PostCycles string
  | PatchCycle string "string option" "string option"
  | PatchCyclesEnd string

datatype MutationResult = MutThrew | MutNotOk | MutOk

text \<open>
  The state hooks and the three refs of the screen.  The hook \<^verbatim>\<open>isLoading\<close> is named
  \<open>isLoadingCycles\<close> here.
\<close>

record CyclesState =
  cycles :: "CycleLog list"
  isLoadingCycles :: bool
  isSaving :: bool
  error :: "ErrorMsg option"
  message :: "InfoMsg option"
  startDraft :: string
  endDraft :: string
  isEditingStart :: bool
  prevStartRef :: string
  prevEndRef :: string
  prevStartBeforeEditRef :: string

text \<open>The state at the first render; \<open>selectedDate\<close> comes from the address of the page.\<close>

definition initialState :: "string \<Rightarrow> CyclesState" where
  "initialState selectedDate =
     \<lparr> cycles = [], isLoadingCycles = False, isSaving = False, error = None, message = None,
       startDraft = selectedDate, endDraft = selectedDate, isEditingStart = False,
       prevStartRef = selectedDate, prevEndRef = selectedDate,
       prevStartBeforeEditRef = selectedDate \<rparr>"

text \<open>\<^verbatim>\<open>cycles.find((c) => c.end_date === null) ?? null\<close>.\<close>

definition openCycle :: "CycleLog list \<Rightarrow> CycleLog option" where
  "openCycle cs = find (\<lambda>c. log_end_date c = None) cs"

text \<open>The effect that runs when \<^verbatim>\<open>selectedDate\<close> or \<^verbatim>\<open>openCycle\<close> changes.\<close>

definition syncDrafts :: "string \<Rightarrow> CyclesState \<Rightarrow> CyclesState" where
  "syncDrafts selectedDate s =
     (case openCycle (cycles s) of
        Some oc \<Rightarrow>
          s\<lparr> isEditingStart := False, startDraft := log_start_date oc, endDraft := selectedDate,
             prevStartRef := log_start_date oc, prevEndRef := selectedDate,
             prevStartBeforeEditRef := log_start_date oc \<rparr>
      | None \<Rightarrow>
          s\<lparr> isEditingStart := False, startDraft := selectedDate, endDraft := selectedDate,
             prevStartRef := selectedDate, prevEndRef := selectedDate,
             prevStartBeforeEditRef := selectedDate \<rparr>)"

text \<open>
  \<^verbatim>\<open>fetchCycles\<close>: it stores the list of the response as it is and throws (\<open>None\<close>) on
  every failure.
\<close>

definition fetchCycles :: "CycleLog list FetchResult \<Rightarrow> CyclesState \<Rightarrow> CyclesState option" where
  "fetchCycles res s = (case res of ResOk cs \<Rightarrow> Some (s\<lparr> cycles := cs \<rparr>) | _ \<Rightarrow> None)"

text \<open>The effect of the first render.\<close>

definition loadCycles :: "CycleLog list FetchResult \<Rightarrow> CyclesState \<Rightarrow> CyclesState" where
  "loadCycles res s =
     (let s1 = s\<lparr> isLoadingCycles := True, error := None \<rparr> in
      case fetchCycles res s1 of
        Some s2 \<Rightarrow> s2\<lparr> isLoadingCycles := False \<rparr>
      | None \<Rightarrow> s1\<lparr> error := Some ErrLoadFailed, isLoadingCycles := False \<rparr>)"

text \<open>
  The \<^verbatim>\<open>catch\<close> and \<^verbatim>\<open>finally\<close> blocks of the three buttons of the registration card:
  the drafts are set from the two refs, the error is set, saving ends.
\<close>

definition rollbackDrafts :: "ErrorMsg \<Rightarrow> CyclesState \<Rightarrow> CyclesState" where
  "rollbackDrafts e s =
     s\<lparr> startDraft := prevStartRef s, endDraft := prevEndRef s, error := Some e, isSaving := False \<rparr>"

text \<open>
  The button that registers a start date.  A handler is an asynchronous function and is
  given in the parts between its \<^verbatim>\<open>await\<close>s: the click up to the request (with the
  request, if one is made), the arrival of the response to the request, and the arrival of
  the response to the \<^verbatim>\<open>GET\<close> of \<^verbatim>\<open>fetchCycles\<close>.  A part reads the state hooks as they
  were when the button was clicked; where a later part uses such a value (the draft quoted
  in a notice) it is an argument.  A click on a disabled button does nothing.
\<close>

definition startClick :: "string \<Rightarrow> CyclesState \<Rightarrow> CyclesState \<times> Request option" where
  "startClick today s =
     (if isSaving s \<or> openCycle (cycles s) \<noteq> None \<or> startDraft s = [] then (s, None)
      else
        let s1 = s\<lparr> prevStartRef := startDraft s, prevEndRef := endDraft s \<rparr> in
        if startDraft s = [] then (s1\<lparr> error := Some ErrStartRequired \<rparr>, None)
        else if startDraft s > today then (s1\<lparr> error := Some ErrStartFuture \<rparr>, None)
        else (s1\<lparr> isSaving := True, error := None, message := None \<rparr>,
              Some (PostCycles (startDraft s))))"

definition startPosted :: "MutationResult \<Rightarrow> CyclesState \<Rightarrow> CyclesState \<times> Request option" where
  "startPosted res s =
     (if res = MutOk then (s, Some GetCycles)
      else (rollbackDrafts ErrStartRegisterFailed s, None))"

definition startFetched :: "string \<Rightarrow> CycleLog list FetchResult \<Rightarrow> CyclesState \<Rightarrow> CyclesState" where
  "startFetched startDraft0 res s =
     (case fetchCycles res s of
        Some s1 \<Rightarrow> s1\<lparr> message := Some (MsgStartRegistered startDraft0), isSaving := False \<rparr>
      | None \<Rightarrow> rollbackDrafts ErrStartRegisterFailed s)"

text \<open>The button that updates the start date of the open cycle; it is rendered only while
  an open cycle exists and its start is being edited.\<close>

definition updateStartClick :: "string \<Rightarrow> CyclesState \<Rightarrow> CyclesState \<times> Request option" where
  "updateStartClick today s =
     (if openCycle (cycles s) = None \<or> \<not> isEditingStart s \<or> isSaving s \<or> startDraft s = []
      then (s, None)
      else
        case openCycle (cycles s) of
          None \<Rightarrow> (s, None)
        | Some oc \<Rightarrow>
            let s1 = s\<lparr> prevStartRef := log_start_date oc, prevEndRef := endDraft s \<rparr> in
            if startDraft s = [] then (s1\<lparr> error := Some ErrStartRequired \<rparr>, None)
            else if startDraft s > today then (s1\<lparr> error := Some ErrStartFuture \<rparr>, None)
            else if endDraft s \<noteq> [] \<and> endDraft s < startDraft s
              then (s1\<lparr> error := Some ErrEndBeforeStart \<rparr>, None)
            else (s1\<lparr> isSaving := True, error := None, message := None \<rparr>,
                  Some (PatchCycle (cycle_id oc) (Some (startDraft s)) None)))"

definition updateStartPatched :: "MutationResult \<Rightarrow> CyclesState \<Rightarrow> CyclesState \<times> Request option" where
  "updateStartPatched res s =
     (if res = MutOk then (s, Some GetCycles)
      else (rollbackDrafts ErrStartUpdateFailed s, None))"

definition updateStartFetched :: "string \<Rightarrow> CycleLog list FetchResult \<Rightarrow> CyclesState \<Rightarrow> CyclesState" where
  "updateStartFetched startDraft0 res s =
     (case fetchCycles res s of
        Some s1 \<Rightarrow>
          s1\<lparr> message := Some (MsgStartUpdated startDraft0), isEditingStart := False,
              prevStartBeforeEditRef := startDraft0, isSaving := False \<rparr>
      | None \<Rightarrow> rollbackDrafts ErrStartUpdateFailed s)"

text \<open>The button that registers the end date.\<close>

definition endClick :: "string \<Rightarrow> CyclesState \<Rightarrow> CyclesState \<times> Request option" where
  "endClick today s =
     (if isSaving s \<or> openCycle (cycles s) = None \<or> endDraft s = [] \<or> isEditingStart s
      then (s, None)
      else
        let s1 = s\<lparr> prevStartRef := startDraft s, prevEndRef := endDraft s \<rparr> in
        if endDraft s = [] then (s1\<lparr> error := Some ErrEndRequired \<rparr>, None)
        else if endDraft s > today then (s1\<lparr> error := Some ErrEndFuture \<rparr>, None)
        else if startDraft s \<noteq> [] \<and> endDraft s < startDraft s
          then (s1\<lparr> error := Some ErrEndBeforeStart \<rparr>, None)
        else (s1\<lparr> isSaving := True, error := None, message := None \<rparr>,
              Some (PatchCyclesEnd (endDraft s))))"

definition endPatched :: "MutationResult \<Rightarrow> CyclesState \<Rightarrow> CyclesState \<times> Request option" where
  "endPatched res s =
     (if res = MutOk then (s, Some GetCycles)
      else (rollbackDrafts ErrEndRegisterFailed s, None))"

definition endFetched :: "string \<Rightarrow> CycleLog list FetchResult \<Rightarrow> CyclesState \<Rightarrow> CyclesState" where
  "endFetched endDraft0 res s =
     (case fetchCycles res s of
        Some s1 \<Rightarrow> s1\<lparr> message := Some (MsgEndRegistered endDraft0), isSaving := False \<rparr>
      | None \<Rightarrow> rollbackDrafts ErrEndRegisterFailed s)"

text \<open>
  A card of a closed cycle (\<^verbatim>\<open>PastCycleCard\<close>) has the two hooks \<^verbatim>\<open>start\<close> and \<^verbatim>\<open>end\<close> of
  its own, which start at the stored dates of its cycle, and writes \<^verbatim>\<open>error\<close>, \<^verbatim>\<open>message\<close>
  and \<^verbatim>\<open>isSaving\<close> of the screen.  The screen shows a card for each of the first three
  closed cycles of its list.
\<close>

record CardState =
  card_start :: string
  card_end :: string

definition cardInit :: "CycleLog \<Rightarrow> CardState" where
  "cardInit cycle =
     \<lparr> card_start = log_start_date cycle,
       card_end = (case log_end_date cycle of Some e \<Rightarrow> e | None \<Rightarrow> []) \<rparr>"

definition pastCycles :: "CycleLog list \<Rightarrow> CycleLog list" where
  "pastCycles cs = take 3 (filter (\<lambda>c. log_end_date c \<noteq> None) cs)"

text \<open>
  The function \<^verbatim>\<open>PastCycleCard\<close> is declared in the body of \<^verbatim>\<open>CyclesScreen\<close>.  Every
  render of the screen therefore makes a new component type, and React unmounts each card
  and mounts a new one in its place, whose hooks start again at the stored dates of its
  cycle.  The screen is rendered when one of its state hooks is set to a value other than
  the one it holds (a ref does not count); \<open>hooksDiffer\<close> compares the hooks before and
  after a part of a handler.  What is typed into a card stays until the next render of
  the screen.
\<close>

definition hooksDiffer :: "CyclesState \<Rightarrow> CyclesState \<Rightarrow> bool" where
  "hooksDiffer s s' \<longleftrightarrow>
     cycles s' \<noteq> cycles s \<or> isLoadingCycles s' \<noteq> isLoadingCycles s
     \<or> isSaving s' \<noteq> isSaving s \<or> error s' \<noteq> error s \<or> message s' \<noteq> message s
     \<or> startDraft s' \<noteq> startDraft s \<or> endDraft s' \<noteq> endDraft s
     \<or> isEditingStart s' \<noteq> isEditingStart s"

text \<open>
  The card of \<open>cycle\<close> on the screen after a part of a handler that took the screen from
  \<open>s\<close> to \<open>s'\<close> without touching the list: mounted anew if the screen was rendered, and
  otherwise as it was.
\<close>

definition cardAfter :: "CycleLog \<Rightarrow> CyclesState \<Rightarrow> CyclesState \<Rightarrow> CardState \<Rightarrow> CardState" where
  "cardAfter cycle s s' crd = (if hooksDiffer s s' then cardInit cycle else crd)"

text \<open>
  The card with the key of \<open>cycle\<close> after a fetched list has been stored: \<^verbatim>\<open>setCycles\<close> gets
  a new array, so the screen is rendered, and the card is there if the new list still has
  a closed cycle with this key among its first three.
\<close>

definition cardOfKey :: "CycleLog \<Rightarrow> CyclesState \<Rightarrow> CardState option" where
  "cardOfKey cycle s =
     map_option cardInit (find (\<lambda>c. cycle_id c = cycle_id cycle) (pastCycles (cycles s)))"

text \<open>
  The handler \<^verbatim>\<open>handleUpdate\<close> of the card of \<open>cycle\<close>, in its three parts.  The state of a
  part is that of the screen together with the fields of the card of \<open>cycle\<close> that is on
  the screen when the part begins.  The click keeps the two fields in the constants
  \<^verbatim>\<open>prevStart\<close> and \<^verbatim>\<open>prevEnd\<close>, which are arguments of the later parts.  A click that
  sends the request sets \<^verbatim>\<open>isSaving\<close> from false to true, so the screen is rendered and the
  card that was clicked is unmounted before the response arrives.
\<close>

definition handleUpdate ::
    "string \<Rightarrow> CycleLog \<Rightarrow> CyclesState \<times> CardState \<Rightarrow> (CyclesState \<times> CardState) \<times> Request option" where
  "handleUpdate today cycle sc =
     (case sc of (s, crd) \<Rightarrow>
        if isSaving s \<or> card_start crd = [] then (sc, None)
        else
          let start = card_start crd; end = card_end crd in
          if end \<noteq> [] \<and> end < start
            then (let s1 = s\<lparr> error := Some ErrEndBeforeStart \<rparr>
                  in ((s1, cardAfter cycle s s1 crd), None))
          else if start > today \<or> (end \<noteq> [] \<and> end > today)
            then (let s1 = s\<lparr> error := Some ErrDatesFuture \<rparr>
                  in ((s1, cardAfter cycle s s1 crd), None))
          else (let s1 = s\<lparr> error := None, message := None, isSaving := True \<rparr>
                in ((s1, cardAfter cycle s s1 crd),
                    Some (PatchCycle (cycle_id cycle)
                            (if start \<noteq> [] then Some start else None)
                            (if end \<noteq> [] then Some end else None)))))"

text \<open>
  The \<^verbatim>\<open>catch\<close> and \<^verbatim>\<open>finally\<close> blocks of \<^verbatim>\<open>handleUpdate\<close>.  The calls \<^verbatim>\<open>setStart(prevStart)\<close>
  and \<^verbatim>\<open>setEnd(prevEnd)\<close> go to the card that was clicked.  That card is unmounted by now,
  and React drops a write to the hook of an unmounted component, so \<open>prevStart\<close> and
  \<open>prevEnd\<close> do not reach the card on the screen.
\<close>

definition cardRollback ::
    "string \<Rightarrow> string \<Rightarrow> CycleLog \<Rightarrow> CyclesState \<times> CardState \<Rightarrow> CyclesState \<times> CardState" where
  "cardRollback prevStart prevEnd cycle sc =
     (case sc of (s, crd) \<Rightarrow>
        let s1 = s\<lparr> error := Some ErrUpdateFailed, isSaving := False \<rparr>
        in (s1, cardAfter cycle s s1 crd))"

definition handleUpdatePatched ::
    "string \<Rightarrow> string \<Rightarrow> CycleLog \<Rightarrow> MutationResult \<Rightarrow> CyclesState \<times> CardState
      \<Rightarrow> (CyclesState \<times> CardState) \<times> Request option" where
  "handleUpdatePatched prevStart prevEnd cycle res sc =
     (if res = MutOk then (sc, Some GetCycles)
      else (cardRollback prevStart prevEnd cycle sc, None))"

definition handleUpdateFetched ::
    "string \<Rightarrow> string \<Rightarrow> CycleLog \<Rightarrow> CycleLog list FetchResult \<Rightarrow> CyclesState \<times> CardState
      \<Rightarrow> CyclesState \<times> CardState option" where
  "handleUpdateFetched prevStart prevEnd cycle res sc =
     (case sc of (s, crd) \<Rightarrow>
        case fetchCycles res s of
          Some s1 \<Rightarrow>
            (let s2 = s1\<lparr> message := Some MsgUpdated, isSaving := False \<rparr>
             in (s2, cardOfKey cycle s2))
        | None \<Rightarrow>
            (case cardRollback prevStart prevEnd cycle sc of (s2, crd2) \<Rightarrow> (s2, Some crd2)))"

text \<open>The link that starts or cancels editing the start date, and the two date inputs.\<close>

definition toggleEditStart :: "CyclesState \<Rightarrow> CyclesState" where
  "toggleEditStart s =
     (if openCycle (cycles s) = None then s
      else if \<not> isEditingStart s
        then s\<lparr> prevStartBeforeEditRef := startDraft s, error := None, message := None,
                isEditingStart := True \<rparr>
      else s\<lparr> startDraft := prevStartBeforeEditRef s, error := None, message := None,
              isEditingStart := False \<rparr>)"

definition changeStartDraft :: "string \<Rightarrow> CyclesState \<Rightarrow> CyclesState" where
  "changeStartDraft v s =
     (if openCycle (cycles s) \<noteq> None \<and> \<not> isEditingStart s then s else s\<lparr> startDraft := v \<rparr>)"

definition changeEndDraft :: "string \<Rightarrow> CyclesState \<Rightarrow> CyclesState" where
  "changeEndDraft v s =
     (if openCycle (cycles s) = None \<or> isEditingStart s then s else s\<lparr> endDraft := v \<rparr>)"

text \<open>
  The outcome of a click on the start button that is rejected before any request: no
  request, the cycle list and both drafts as before, and, when the button was enabled,
  the error that a start date must not lie in the future.
\<close>

definition rejectedLocally :: "string \<Rightarrow> CyclesState \<Rightarrow> bool" where
  "rejectedLocally today s \<longleftrightarrow>
     snd (startClick today s) = None
     \<and> cycles (fst (startClick today s)) = cycles s
     \<and> startDraft (fst (startClick today s)) = startDraft s
     \<and> endDraft (fst (startClick today s)) = endDraft s
     \<and> (\<not> isSaving s \<and> openCycle (cycles s) = None
          \<longrightarrow> error (fst (startClick today s)) = Some ErrStartFuture)"

text \<open>A date whose year has four digits, as the strings \<^verbatim>\<open>YYYY-MM-DD\<close> have.\<close>

definition fourDigitYear :: "Date \<Rightarrow> bool" where
  "fourDigitYear d \<longleftrightarrow> 1000 \<le> getFullYear d \<and> getFullYear d \<le> 9999"

text \<open>The number of open cycles in a list.\<close>

definition openCount :: "CycleLog list \<Rightarrow> nat" where
  "openCount cs = length (filter (\<lambda>c. log_end_date c = None) cs)"

text \<open>
  The states that the screen can reach.  Every part of every handler may run at any time
  and with any argument, which covers every interleaving of clicks and responses.  The
  service is a parameter: \<open>service cs\<close> says that \<open>cs\<close> is a list that the service may
  return for \<^verbatim>\<open>GET /cycles\<close>.
\<close>

definition mayReturn :: "(CycleLog list \<Rightarrow> bool) \<Rightarrow> CycleLog list FetchResult \<Rightarrow> bool" where
  "mayReturn service res \<longleftrightarrow> (case res of ResOk cs \<Rightarrow> service cs | _ \<Rightarrow> True)"

text \<open>Two services: one whose lists have at most one open cycle, and one that may return any list.\<close>

definition atMostOneOpen :: "CycleLog list \<Rightarrow> bool" where
  "atMostOneOpen cs \<longleftrightarrow> openCount cs \<le> 1"

definition anyList :: "CycleLog list \<Rightarrow> bool" where
  "anyList cs \<longleftrightarrow> True"

inductive reachable :: "(CycleLog list \<Rightarrow> bool) \<Rightarrow> string \<Rightarrow> string \<Rightarrow> CyclesState \<Rightarrow> bool"
  for service :: "CycleLog list \<Rightarrow> bool" and today :: string and selectedDate :: string
where
  r_init: "reachable service today selectedDate (initialState selectedDate)"
| r_load: "reachable service today selectedDate s \<Longrightarrow> mayReturn service res
     \<Longrightarrow> reachable service today selectedDate (loadCycles res s)"
| r_sync: "reachable service today selectedDate s
     \<Longrightarrow> reachable service today selectedDate (syncDrafts selectedDate s)"
| r_toggle: "reachable service today selectedDate s
     \<Longrightarrow> reachable service today selectedDate (toggleEditStart s)"
| r_changeStart: "reachable service today selectedDate s
     \<Longrightarrow> reachable service today selectedDate (changeStartDraft v s)"
| r_changeEnd: "reachable service today selectedDate s
     \<Longrightarrow> reachable service today selectedDate (changeEndDraft v s)"
| r_startClick: "reachable service today selectedDate s
     \<Longrightarrow> reachable service today selectedDate (fst (startClick today s))"
| r_startPosted: "reachable service today selectedDate s
     \<Longrightarrow> reachable service today selectedDate (fst (startPosted mres s))"
| r_startFetched: "reachable service today selectedDate s \<Longrightarrow> mayReturn service res
     \<Longrightarrow> reachable service today selectedDate (startFetched v res s)"
| r_updateStartClick: "reachable service today selectedDate s
     \<Longrightarrow> reachable service today selectedDate (fst (updateStartClick today s))"
| r_updateStartPatched: "reachable service today selectedDate s
     \<Longrightarrow> reachable service today selectedDate (fst (updateStartPatched mres s))"
| r_updateStartFetched: "reachable service today selectedDate s \<Longrightarrow> mayReturn service res
     \<Longrightarrow> reachable service today selectedDate (updateStartFetched v res s)"
| r_endClick: "reachable service today selectedDate s
     \<Longrightarrow> reachable service today selectedDate (fst (endClick today s))"
| r_endPatched: "reachable service today selectedDate s
     \<Longrightarrow> reachable service today selectedDate (fst (endPatched mres s))"
| r_endFetched: "reachable service today selectedDate s \<Longrightarrow> mayReturn service res
     \<Longrightarrow> reachable service today selectedDate (endFetched v res s)"
| r_cardClick: "reachable service today selectedDate s
     \<Longrightarrow> reachable service today selectedDate (fst (fst (handleUpdate today cycle (s, crd))))"
| r_cardPatched: "reachable service today selectedDate s
     \<Longrightarrow> reachable service today selectedDate
           (fst (fst (handleUpdatePatched prevStart prevEnd cycle mres (s, crd))))"
| r_cardFetched: "reachable service today selectedDate s \<Longrightarrow> mayReturn service res
     \<Longrightarrow> reachable service today selectedDate
           (fst (handleUpdateFetched prevStart prevEnd cycle res (s, crd)))"

section \<open>Facts about the calendar grid\<close>







lemma length_run [simp]: "length (run base flag n) = n"
  by (simp add: run_def)







section \<open>Facts about the menstruation flags\<close>

subsection \<open>In every time zone\<close>

lemma markCycle_invalid_start:
  "\<not> isValidYmd (start_date c) \<Longrightarrow> markCycle z fromDate toDate todayDate c m = m"
  by (cases "start_date c") (simp_all add: markCycle_def)

lemma fillDays_step:
  "cur \<le> end \<Longrightarrow> fillDays z cur end m
     = fillDays z (UTC z (LocalTime z cur + msPerDay)) end
         (m(formatYmdLocal (localDate z cur) \<mapsto> True))"
  "\<not> cur \<le> end \<Longrightarrow> fillDays z cur end m = m"
  by (subst fillDays.simps, simp add: setDateAt_next)+

lemma firstDay_year:
  assumes "0 \<le> month" "month \<le> 11"
  shows "YearFromTime (newDate year month 1) = jsYear year"
  using MakeDay_fields(1) [of 1 "jsYear year" month] daysInMonthOf_range [of "jsYear year" month] assms
  by (simp add: newDate_MakeDay)

lemma lastDay_eq:
  assumes "0 \<le> month" "month \<le> 11"
  shows "newDate year (month + 1) 0 = newDate year month 1 + daysInMonthOf (jsYear year) month - 1"
proof -
  have "newDate year (month + 1) 0 = MakeDay (jsYear year) (month + 1) 1 - 1"
    using MakeDay_add [of "jsYear year" "month + 1" 1 "- 1"] by (simp add: newDate_MakeDay)
  also have "\<dots> = MakeDay (jsYear year) month 1 + daysInMonthOf (jsYear year) month - 1"
    using assms by (simp add: MakeDay_next_month)
  finally show ?thesis by (simp add: newDate_MakeDay)
qed

lemma fetch_dates:
  assumes v: "valid_ym year month" and t: "100 \<le> getFullYear today"
  shows "parseYmdToLocalDate (formatYmdLocal (newDate year month 1)) = firstDayOf year month"
    and "parseYmdToLocalDate (formatYmdLocal (newDate year (month + 1) 0)) = lastDayOf year month"
    and "parseYmdToLocalDate (formatYmdLocal today) = today"
    and "100 \<le> YearFromTime (firstDayOf year month)"
proof -
  from v have m: "0 \<le> month" "month \<le> 11" and y: "0 \<le> year" by (simp_all add: valid_ym_def)
  show fy: "100 \<le> YearFromTime (firstDayOf year month)"
    using firstDay_year [OF m, of year] jsYear_ge [OF y] by (simp add: firstDayOf_def)
  have "newDate year month 1 \<le> newDate year (month + 1) 0"
    using lastDay_eq [OF m, of year] daysInMonthOf_range [of "jsYear year" month] by simp
  then have ly: "100 \<le> YearFromTime (newDate year (month + 1) 0)"
    using YearFromTime_mono [of "newDate year month 1" "newDate year (month + 1) 0"] fy
    by (simp add: firstDayOf_def)
  show "parseYmdToLocalDate (formatYmdLocal (newDate year month 1)) = firstDayOf year month"
    unfolding firstDayOf_def by (rule parse_format_roundtrip) (use fy in \<open>simp add: firstDayOf_def\<close>)
  show "parseYmdToLocalDate (formatYmdLocal (newDate year (month + 1) 0)) = lastDayOf year month"
    unfolding lastDayOf_def by (rule parse_format_roundtrip) (rule ly)
  show "parseYmdToLocalDate (formatYmdLocal today) = today"
    by (rule parse_format_roundtrip) (use t in \<open>simp add: getFullYear_def\<close>)
qed

text \<open>
  The three \<^verbatim>\<open>Date\<close> objects that the effect computes first are those of the first day of
  the month, of its last day and of today; the list is then run through from the empty map.
\<close>

lemma fetchMenstruation_ok:
  assumes v: "valid_ym year month" and t: "100 \<le> getFullYear (localDate z now)"
  shows "menstruationByDate (fetchMenstruationFromCycles z year month now (ResOk (Some cs)) st)
     = forEachCycle z (dateAt z (firstDayOf year month)) (dateAt z (lastDayOf year month))
         (dateAt z (localDate z now)) cs Map.empty"
  by (simp add: fetchMenstruationFromCycles_def Let_def parseYmdAt_def localDate_dateAt
      fetch_dates [OF v t])

subsection \<open>In a time zone without summer time\<close>

text \<open>The end that the loop body uses: an end date that fails the format test counts as absent.\<close>

definition usedEnd :: "Date \<Rightarrow> Date \<Rightarrow> CycleItem \<Rightarrow> Date" where
  "usedEnd today lastDay c =
     (if isValidYmd (end_date c) then effectiveEnd today lastDay c else min today lastDay)"

text \<open>The dates that the loop body marks for one cycle.\<close>

definition cycleDates :: "Date \<Rightarrow> Date \<Rightarrow> Date \<Rightarrow> CycleItem \<Rightarrow> Date set" where
  "cycleDates fromDate toDate todayDate c =
     (if isValidYmd (start_date c)
      then {cycleStartDate c .. usedEnd todayDate toDate c} \<inter> {fromDate .. toDate}
      else {})"

lemma standard_time:
  assumes "summerTime z = []"
  shows "LocalTime z u = u + standardOffset z"
    and "UTC z t = t - standardOffset z"
    and "dateAt z d = d * msPerDay - standardOffset z"
proof -
  show l: "LocalTime z u = u + standardOffset z" for u
    using assms by (simp add: LocalTime_def offsetAt_def)
  show u: "UTC z t = t - standardOffset z" for t
    by (simp add: UTC_def possibleInstants_def l msPerHour_def)
  show "dateAt z d = d * msPerDay - standardOffset z"
    by (simp add: dateAt_def u MakeDate_def)
qed

lemma dateAt_order:
  assumes "summerTime z = []"
  shows "dateAt z a < dateAt z b \<longleftrightarrow> a < b" and "dateAt z a \<le> dateAt z b \<longleftrightarrow> a \<le> b"
  by (simp_all add: standard_time(3) [OF assms] msPerDay_def)

lemma dateAt_next:
  assumes "summerTime z = []"
  shows "UTC z (LocalTime z (dateAt z d) + msPerDay) = dateAt z (d + 1)"
  by (simp add: standard_time [OF assms] algebra_simps)

lemma fillDays_lookup:
  assumes nz: "summerTime z = []"
  shows "fillDays z (dateAt z a) (dateAt z b) m k
     = (if k \<in> formatYmdLocal ` {a..b} then Some True else m k)"
proof (induction "nat (b + 1 - a)" arbitrary: a m)
  case 0
  then have "\<not> a \<le> b" by simp
  then show ?case by (simp add: fillDays_step(2) dateAt_order(2) [OF nz])
next
  case (Suc n)
  then have le: "a \<le> b" and n: "n = nat (b + 1 - (a + 1))" by simp_all
  have s: "{a..b} = insert a {a + 1..b}" using le by auto
  have "fillDays z (dateAt z a) (dateAt z b) m k
      = fillDays z (dateAt z (a + 1)) (dateAt z b) (m(formatYmdLocal a \<mapsto> True)) k"
    using le by (simp add: fillDays_step(1) dateAt_order(2) [OF nz] dateAt_next [OF nz]
        localDate_dateAt)
  also have "\<dots> = (if k \<in> formatYmdLocal ` {a + 1..b} then Some True
      else (m(formatYmdLocal a \<mapsto> True)) k)"
    by (rule Suc.hyps(1) [OF n])
  also have "\<dots> = (if k \<in> formatYmdLocal ` insert a {a + 1..b} then Some True else m k)"
    by (cases "k = formatYmdLocal a") simp_all
  finally show ?case unfolding s .
qed

lemma markCycle_lookup:
  assumes nz: "summerTime z = []" and y: "100 \<le> YearFromTime fromDay"
  shows "markCycle z (dateAt z fromDay) (dateAt z toDay) (dateAt z todayDay) c m k
     = (if k \<in> formatYmdLocal ` cycleDates fromDay toDay todayDay c then Some True else m k)"
proof (cases "isValidYmd (start_date c)")
  case False
  then show ?thesis by (simp add: markCycle_invalid_start cycleDates_def)
next
  case True
  then obtain s where s: "start_date c = Some s" by (cases "start_date c") simp_all
  define cycleEnd where "cycleEnd = usedEnd todayDay toDay c"
  define start where "start = max (parseYmdToLocalDate s) fromDay"
  define end' where "end' = min cycleEnd toDay"
  note o = dateAt_order [OF nz]
  have oe: "(if dateAt z todayDay < dateAt z toDay then dateAt z todayDay else dateAt z toDay)
      = dateAt z (min todayDay toDay)"
    by (simp add: o min_def)
  have ce: "(case end_date c of None \<Rightarrow> dateAt z (min todayDay toDay)
      | Some endYmd \<Rightarrow> if isValidYmd (Some endYmd) then parseYmdAt z endYmd
          else dateAt z (min todayDay toDay)) = dateAt z cycleEnd"
    by (auto simp: cycleEnd_def usedEnd_def effectiveEnd_def parseYmdAt_def split: option.splits)
  have st: "(if parseYmdAt z s > dateAt z fromDay then parseYmdAt z s else dateAt z fromDay)
      = dateAt z start"
    by (simp add: start_def max_def parseYmdAt_def o)
  have en: "(if dateAt z cycleEnd < dateAt z toDay then dateAt z cycleEnd else dateAt z toDay)
      = dateAt z end'"
    by (simp add: end'_def min_def o)
  have sy: "100 \<le> YearFromTime start"
    using YearFromTime_mono [of fromDay start] y by (simp add: start_def)
  have cur: "newDate (getFullYear (localDate z (dateAt z start)))
      (getMonth (localDate z (dateAt z start))) (getDate (localDate z (dateAt z start))) = start"
    unfolding localDate_dateAt using newDate_of_fields [OF sy, of 0] by simp
  have lt: "dateAt z end' < dateAt z start \<longleftrightarrow> end' < start" by (rule o(1))
  have v: "isValidYmd (Some s)" using True by (simp only: s)
  have m: "markCycle z (dateAt z fromDay) (dateAt z toDay) (dateAt z todayDay) c m
      = (if end' < start then m else fillDays z (dateAt z start) (dateAt z end') m)"
    by (simp only: markCycle_def s option.case v Let_def oe ce st en cur lt simp_thms if_False)
  have d: "cycleDates fromDay toDay todayDay c = {start .. end'}"
    using True by (auto simp: cycleDates_def cycleStartDate_def s start_def end'_def cycleEnd_def)
  show ?thesis
    unfolding m d by (simp add: fillDays_lookup [OF nz])
qed

lemma forEachCycle_lookup:
  assumes nz: "summerTime z = []" and y: "100 \<le> YearFromTime fromDay"
  shows "forEachCycle z (dateAt z fromDay) (dateAt z toDay) (dateAt z todayDay) cs m k
     = (if \<exists>c\<in>set cs. k \<in> formatYmdLocal ` cycleDates fromDay toDay todayDay c
        then Some True else m k)"
proof (induction cs arbitrary: m)
  case Nil
  show ?case by simp
next
  case (Cons c cs)
  show ?case
    by (simp only: forEachCycle.simps Cons.IH markCycle_lookup [OF nz y]) auto
qed

lemma hasMenstruation_forEachCycle:
  assumes nz: "summerTime z = []" and y: "100 \<le> YearFromTime fromDay"
  shows "hasMenstruation
       (forEachCycle z (dateAt z fromDay) (dateAt z toDay) (dateAt z todayDay) cs Map.empty) d
     \<longleftrightarrow> (\<exists>c\<in>set cs. d \<in> cycleDates fromDay toDay todayDay c)"
proof -
  have "formatYmdLocal d \<in> formatYmdLocal ` A \<longleftrightarrow> d \<in> A" for A
    using formatYmdLocal_inj by blast
  then show ?thesis
    by (simp add: hasMenstruation_def forEachCycle_lookup [OF nz y])
qed

lemma cycleDates_wellFormed:
  assumes "wellFormedCycle c"
  shows "cycleDates fromDate toDate todayDate c
     = {cycleStartDate c .. effectiveEnd todayDate toDate c} \<inter> {fromDate .. toDate}"
  using assms by (auto simp: cycleDates_def usedEnd_def wellFormedCycle_def effectiveEnd_def)

subsection \<open>The cycle list changes only when a fetched list is stored\<close>

lemma cycles_after_fetch:
  "fetchCycles res s = Some s1 \<Longrightarrow> \<exists>cs. res = ResOk cs \<and> cycles s1 = cs"
  by (cases res) (auto simp: fetchCycles_def)

lemma cycles_card:
  "cycles (fst (fst (handleUpdate today cycle (s, crd)))) = cycles s"
  "cycles (fst (cardRollback prevStart prevEnd cycle (s, crd))) = cycles s"
  by (simp_all add: handleUpdate_def cardRollback_def Let_def)

lemma cycles_unchanged [simp]:
  "cycles (syncDrafts d s) = cycles s"
  "cycles (toggleEditStart s) = cycles s"
  "cycles (changeStartDraft v s) = cycles s"
  "cycles (changeEndDraft v s) = cycles s"
  "cycles (rollbackDrafts e s) = cycles s"
  "cycles (fst (startClick today s)) = cycles s"
  "cycles (fst (startPosted mres s)) = cycles s"
  "cycles (fst (updateStartClick today s)) = cycles s"
  "cycles (fst (updateStartPatched mres s)) = cycles s"
  "cycles (fst (endClick today s)) = cycles s"
  "cycles (fst (endPatched mres s)) = cycles s"
  "cycles (fst (fst (handleUpdate today cycle (s, crd)))) = cycles s"
  "cycles (fst (fst (handleUpdatePatched prevStart prevEnd cycle mres (s, crd)))) = cycles s"
  by (simp_all add: syncDrafts_def toggleEditStart_def changeStartDraft_def changeEndDraft_def
      rollbackDrafts_def startClick_def startPosted_def updateStartClick_def updateStartPatched_def
      endClick_def endPatched_def handleUpdatePatched_def cycles_card Let_def
      split: option.splits)

lemma cycles_fetched:
  assumes "mayReturn service res"
  shows "cycles (loadCycles res s) = cycles s \<or> service (cycles (loadCycles res s))"
    "cycles (startFetched v res s) = cycles s \<or> service (cycles (startFetched v res s))"
    "cycles (updateStartFetched v res s) = cycles s \<or> service (cycles (updateStartFetched v res s))"
    "cycles (endFetched v res s) = cycles s \<or> service (cycles (endFetched v res s))"
    "cycles (fst (handleUpdateFetched p q cycle res (s, crd))) = cycles s
       \<or> service (cycles (fst (handleUpdateFetched p q cycle res (s, crd))))"
  using assms
  by (cases res; simp add: mayReturn_def loadCycles_def startFetched_def updateStartFetched_def
      endFetched_def handleUpdateFetched_def fetchCycles_def rollbackDrafts_def cycles_card
      Let_def split_beta)+

lemma reachable_cycles:
  assumes "reachable service today selectedDate s"
  shows "cycles s = [] \<or> service (cycles s)"
  using assms
proof (induction rule: reachable.induct)
  case r_init
  show ?case by (simp add: initialState_def)
next
  case (r_load s res)
  then show ?case using cycles_fetched(1) [of service res s] by auto
next
  case (r_startFetched s res v)
  then show ?case using cycles_fetched(2) [of service res v s] by auto
next
  case (r_updateStartFetched s res v)
  then show ?case using cycles_fetched(3) [of service res v s] by auto
next
  case (r_endFetched s res v)
  then show ?case using cycles_fetched(4) [of service res v s] by auto
next
  case (r_cardFetched s res prevStart prevEnd cycle crd)
  then show ?case using cycles_fetched(5) [of service res prevStart prevEnd cycle s crd] by auto
qed simp_all

section \<open>Properties of the visibility filter\<close>

text \<open>
  C4.  A metric whose raw score is exactly 3 is not visible, whatever the sort state is
  (any category, any direction, also the combinations that the TypeScript type excludes)
  and whether or not the day has a summary.
\<close>

theorem score3_never_visible:
  "\<forall>summary sortState metric.
     scoreMap summary metric = 3 \<longrightarrow> \<not> isIconVisible (Some summary) sortState metric"
  by simp

theorem score3_never_visible_witness:
  "scoreMap \<lparr> sleepQuality = 3, stressLevel = 1, skinCondition = 2, skincareEffort = 5,
       memo = [], prefecture = [] \<rparr> Sleep = 3
   \<and> \<not> isIconVisible (Some \<lparr> sleepQuality = 3, stressLevel = 1, skinCondition = 2,
       skincareEffort = 5, memo = [], prefecture = [] \<rparr>)
       \<lparr> category = Cat Sleep, direction = Some Bad \<rparr> Sleep"
  using score3_never_visible by simp

text \<open>
  C5.  With category "none" every metric whose score is not 3 is visible, whatever the
  direction field holds.  With category \<open>x\<close> every other metric is suppressed, and \<open>x\<close>
  itself is visible exactly when its score passes the direction test: at least 4 for
  "good", at most 2 for "bad".
\<close>

theorem visibility_by_sort_state:
  "(category s = CatNone \<and> scoreMap summary metric \<noteq> 3
      \<longrightarrow> isIconVisible (Some summary) s metric)
   \<and> (category s = Cat x \<and> metric \<noteq> x \<longrightarrow> \<not> isIconVisible (Some summary) s metric)
   \<and> (category s = Cat x \<and> direction s = Some Good
      \<longrightarrow> (isIconVisible (Some summary) s x \<longleftrightarrow> scoreMap summary x \<ge> 4))
   \<and> (category s = Cat x \<and> direction s = Some Bad
      \<longrightarrow> (isIconVisible (Some summary) s x \<longleftrightarrow> scoreMap summary x \<le> 2))"
  by (auto simp: Let_def)

text \<open>
  The scenario of the specification: under \<^verbatim>\<open>{category: "sleep", direction: "good"}\<close> a day
  with sleepQuality 5 and stressLevel 1 shows the sleep glyph and not the stress glyph;
  under category "none" the same day shows both.
\<close>

theorem visibility_by_sort_state_witness:
  "isIconVisible (Some \<lparr> sleepQuality = 5, stressLevel = 1, skinCondition = 3,
       skincareEffort = 3, memo = [], prefecture = [] \<rparr>)
     \<lparr> category = Cat Sleep, direction = Some Good \<rparr> Sleep
   \<and> \<not> isIconVisible (Some \<lparr> sleepQuality = 5, stressLevel = 1, skinCondition = 3,
       skincareEffort = 3, memo = [], prefecture = [] \<rparr>)
     \<lparr> category = Cat Sleep, direction = Some Good \<rparr> Stress
   \<and> isIconVisible (Some \<lparr> sleepQuality = 5, stressLevel = 1, skinCondition = 3,
       skincareEffort = 3, memo = [], prefecture = [] \<rparr>)
     \<lparr> category = CatNone, direction = None \<rparr> Stress
   \<and> \<not> isIconVisible (Some \<lparr> sleepQuality = 5, stressLevel = 1, skinCondition = 3,
       skincareEffort = 3, memo = [], prefecture = [] \<rparr>)
     \<lparr> category = Cat Sleep, direction = Some Bad \<rparr> Sleep"
  using
    visibility_by_sort_state [of "\<lparr> category = Cat Sleep, direction = Some Good \<rparr>"
      "\<lparr> sleepQuality = 5, stressLevel = 1, skinCondition = 3,
         skincareEffort = 3, memo = [], prefecture = [] \<rparr>" Stress Sleep]
    visibility_by_sort_state [of "\<lparr> category = CatNone, direction = None \<rparr>"
      "\<lparr> sleepQuality = 5, stressLevel = 1, skinCondition = 3,
         skincareEffort = 3, memo = [], prefecture = [] \<rparr>" Stress Sleep]
    visibility_by_sort_state [of "\<lparr> category = Cat Sleep, direction = Some Bad \<rparr>"
      "\<lparr> sleepQuality = 5, stressLevel = 1, skinCondition = 3,
         skincareEffort = 3, memo = [], prefecture = [] \<rparr>" Stress Sleep]
  by simp

text \<open>
  The map that \<^verbatim>\<open>records.forEach\<close> builds holds, under the date of a record, the summary
  of the last record with that date.
\<close>

lemma recordsToMap_later_dates:
  assumes "\<forall>r'\<in>set rs. date r' \<noteq> k"
  shows "recordsToMap rs m k = m k"
  using assms by (induction rs arbitrary: m) auto

lemma recordsToMap_last_record:
  assumes "date r \<noteq> []" "\<forall>r'\<in>set rs2. date r' \<noteq> date r"
  shows "recordsToMap (rs1 @ r # rs2) m (date r) = Some (toSummary r)"
  using assms
  by (induction rs1 arbitrary: m) (simp_all add: recordsToMap_later_dates)

text \<open>
  C10.  The page fetches the records of a month that is not wholly in the future, and the
  response holds a record with a date whose value for a metric is null or missing; no
  later record of the response has the same date.  Then the effect stores the summary of
  that record under its date in \<^verbatim>\<open>recordsByDate\<close>, with score 0 for that metric.  The cell
  whose key is that date gets this summary, and the filter, which does not clamp the
  score, shows the glyph of the metric under category "none" (with any direction field)
  and under the metric's own category with direction "bad".
\<close>

theorem null_metric_stored_as_zero_and_visible:
  assumes "\<not> formatYmdLocal (newDate year month 1) > formatYmdLocal now"
    and "date r \<noteq> []" "rawMetric r metric = None"
    and "\<forall>r'\<in>set rs2. date r' \<noteq> date r"
    and "formatYmdLocal cell = date r"
  shows "recordsByDate (fst (fetchMonthlyRecords year month now (ResOk (Some (rs1 @ r # rs2))) st))
           (date r) = Some (toSummary r)
     \<and> scoreMap (toSummary r) metric = 0
     \<and> summaryOf
          (recordsByDate
             (fst (fetchMonthlyRecords year month now (ResOk (Some (rs1 @ r # rs2))) st)))
          cell = Some (toSummary r)
     \<and> isIconVisible
          (summaryOf
             (recordsByDate
                (fst (fetchMonthlyRecords year month now (ResOk (Some (rs1 @ r # rs2))) st)))
             cell)
          \<lparr> category = CatNone, direction = d \<rparr> metric
     \<and> isIconVisible
          (summaryOf
             (recordsByDate
                (fst (fetchMonthlyRecords year month now (ResOk (Some (rs1 @ r # rs2))) st)))
             cell)
          \<lparr> category = Cat metric, direction = Some Bad \<rparr> metric"
proof -
  have m: "recordsByDate
      (fst (fetchMonthlyRecords year month now (ResOk (Some (rs1 @ r # rs2))) st))
      = recordsToMap (rs1 @ r # rs2) Map.empty"
    using assms(1) by (simp add: fetchMonthlyRecords_def Let_def)
  have k: "recordsToMap (rs1 @ r # rs2) Map.empty (date r) = Some (toSummary r)"
    using assms(2,4) by (rule recordsToMap_last_record)
  have z: "scoreMap (toSummary r) metric = 0"
    using assms(3) by (cases metric) (simp_all add: toSummary_def)
  show ?thesis
    unfolding m summaryOf_def assms(5) k using z by simp
qed

text \<open>
  In March 2024, on 2024-03-10, the response holds the records of 2024-03-04, 2024-03-05
  and 2024-03-06, and the record of 2024-03-05 has no value for sleep: the cell of that
  day shows the sleep glyph under category "none" and under sleep with "bad".
\<close>

lemma march_fifth:
  "\<not> formatYmdLocal (newDate 2024 2 1) > formatYmdLocal (newDate 2024 2 10)"
  "formatYmdLocal (newDate 2024 2 5) = ''2024-03-05''"
  "''2024-03-06'' \<noteq> ''2024-03-05''"
  by code_simp+

theorem null_metric_stored_as_zero_and_visible_witness:
  "\<not> formatYmdLocal (newDate 2024 2 1) > formatYmdLocal (newDate 2024 2 10)
   \<and> formatYmdLocal (newDate 2024 2 5) = ''2024-03-05''
   \<and> recordsByDate
        (fst (fetchMonthlyRecords 2024 2 (newDate 2024 2 10)
           (ResOk (Some
             [\<lparr> date = ''2024-03-04'', sleep = Some 4, stress = Some 2,
                 skin_condition = Some 3, skincare_effort = Some 5, memo_in = None,
                 prefecture_code = None, prefecture_in = None, env_pref_code = None \<rparr>,
              \<lparr> date = ''2024-03-05'', sleep = None, stress = Some 4,
                 skin_condition = Some 2, skincare_effort = None, memo_in = None,
                 prefecture_code = None, prefecture_in = None, env_pref_code = None \<rparr>,
              \<lparr> date = ''2024-03-06'', sleep = Some 5, stress = Some 1,
                 skin_condition = Some 4, skincare_effort = Some 2, memo_in = None,
                 prefecture_code = None, prefecture_in = None, env_pref_code = None \<rparr>]))
           \<lparr> recordsByDate = Map.empty, menstruationByDate = Map.empty,
             isLoading = False, fetchError = None \<rparr>))
        ''2024-03-05''
      = Some \<lparr> sleepQuality = 0, stressLevel = 4, skinCondition = 2, skincareEffort = 0,
               memo = [], prefecture = [] \<rparr>
   \<and> isIconVisible
        (summaryOf
           (recordsByDate
              (fst (fetchMonthlyRecords 2024 2 (newDate 2024 2 10)
                 (ResOk (Some
                   [\<lparr> date = ''2024-03-04'', sleep = Some 4, stress = Some 2,
                       skin_condition = Some 3, skincare_effort = Some 5, memo_in = None,
                       prefecture_code = None, prefecture_in = None, env_pref_code = None \<rparr>,
                    \<lparr> date = ''2024-03-05'', sleep = None, stress = Some 4,
                       skin_condition = Some 2, skincare_effort = None, memo_in = None,
                       prefecture_code = None, prefecture_in = None, env_pref_code = None \<rparr>,
                    \<lparr> date = ''2024-03-06'', sleep = Some 5, stress = Some 1,
                       skin_condition = Some 4, skincare_effort = Some 2, memo_in = None,
                       prefecture_code = None, prefecture_in = None, env_pref_code = None \<rparr>]))
                 \<lparr> recordsByDate = Map.empty, menstruationByDate = Map.empty,
                   isLoading = False, fetchError = None \<rparr>)))
           (newDate 2024 2 5))
        \<lparr> category = CatNone, direction = None \<rparr> Sleep
   \<and> isIconVisible
        (summaryOf
           (recordsByDate
              (fst (fetchMonthlyRecords 2024 2 (newDate 2024 2 10)
                 (ResOk (Some
                   [\<lparr> date = ''2024-03-04'', sleep = Some 4, stress = Some 2,
                       skin_condition = Some 3, skincare_effort = Some 5, memo_in = None,
                       prefecture_code = None, prefecture_in = None, env_pref_code = None \<rparr>,
                    \<lparr> date = ''2024-03-05'', sleep = None, stress = Some 4,
                       skin_condition = Some 2, skincare_effort = None, memo_in = None,
                       prefecture_code = None, prefecture_in = None, env_pref_code = None \<rparr>,
                    \<lparr> date = ''2024-03-06'', sleep = Some 5, stress = Some 1,
                       skin_condition = Some 4, skincare_effort = Some 2, memo_in = None,
                       prefecture_code = None, prefecture_in = None, env_pref_code = None \<rparr>]))
                 \<lparr> recordsByDate = Map.empty, menstruationByDate = Map.empty,
                   isLoading = False, fetchError = None \<rparr>)))
           (newDate 2024 2 5))
        \<lparr> category = Cat Sleep, direction = Some Bad \<rparr> Sleep"
proof -
  define r0 where "r0 = \<lparr> date = ''2024-03-04'', sleep = Some 4, stress = Some 2,
      skin_condition = Some 3, skincare_effort = Some 5, memo_in = None,
      prefecture_code = None, prefecture_in = None, env_pref_code = None \<rparr>"
  define r where "r = \<lparr> date = ''2024-03-05'', sleep = None, stress = Some 4,
      skin_condition = Some 2, skincare_effort = None, memo_in = None,
      prefecture_code = None, prefecture_in = None, env_pref_code = None \<rparr>"
  define r2 where "r2 = \<lparr> date = ''2024-03-06'', sleep = Some 5, stress = Some 1,
      skin_condition = Some 4, skincare_effort = Some 2, memo_in = None,
      prefecture_code = None, prefecture_in = None, env_pref_code = None \<rparr>"
  define st where "st = \<lparr> recordsByDate = Map.empty, menstruationByDate = Map.empty,
      isLoading = False, fetchError = None \<rparr>"
  have k: "date r = ''2024-03-05''" by (simp add: r_def)
  have a: "date r \<noteq> []" "rawMetric r Sleep = None" "formatYmdLocal (newDate 2024 2 5) = date r"
    by (simp_all add: r_def march_fifth(2))
  have b: "\<forall>r'\<in>set [r2]. date r' \<noteq> date r"
    unfolding k using march_fifth(3) by (simp add: r2_def)
  have t: "toSummary r = \<lparr> sleepQuality = 0, stressLevel = 4, skinCondition = 2,
      skincareEffort = 0, memo = [], prefecture = [] \<rparr>"
    by (simp add: toSummary_def r_def)
  have l: "[r0] @ r # [r2] = [r0, r, r2]" by simp
  note w = null_metric_stored_as_zero_and_visible [OF march_fifth(1) a(1,2) b a(3),
      where ?rs1.0 = "[r0]" and st = st]
  have "recordsByDate
          (fst (fetchMonthlyRecords 2024 2 (newDate 2024 2 10) (ResOk (Some [r0, r, r2])) st))
          ''2024-03-05'' = Some \<lparr> sleepQuality = 0, stressLevel = 4, skinCondition = 2,
             skincareEffort = 0, memo = [], prefecture = [] \<rparr>"
    and "isIconVisible
        (summaryOf
           (recordsByDate
              (fst (fetchMonthlyRecords 2024 2 (newDate 2024 2 10)
                 (ResOk (Some [r0, r, r2])) st)))
           (newDate 2024 2 5))
        \<lparr> category = CatNone, direction = None \<rparr> Sleep"
    and "isIconVisible
        (summaryOf
           (recordsByDate
              (fst (fetchMonthlyRecords 2024 2 (newDate 2024 2 10)
                 (ResOk (Some [r0, r, r2])) st)))
           (newDate 2024 2 5))
        \<lparr> category = Cat Sleep, direction = Some Bad \<rparr> Sleep"
    using w [of None] unfolding t k l by blast+
  then show ?thesis
    using march_fifth(1,2) unfolding r0_def r_def r2_def st_def by blast
qed

section \<open>Properties of the calendar grid\<close>




section \<open>Properties of the menstruation flags\<close>

subsection \<open>A time zone without summer time\<close>

text \<open>
  In a time zone without summer time, let the visible month be valid, let today lie in
  year 100 or later, and let every fetched cycle have well-formed dates.  Then a date is
  flagged \<^verbatim>\<open>hasMenstruation\<close> exactly when some fetched cycle contributes it, and the dates
  a cycle contributes are exactly those of the inclusive range from its start date to its
  effective end that lie in the window from the first to the last day of the month.  The
  effective end is the end date of a closed cycle, and for an open cycle today or the
  last day of the month, whichever is earlier.  A cycle whose clipped range is empty
  contributes nothing.
\<close>

lemma flags_clipped_without_summer_time:
  assumes nz: "summerTime z = []"
    and v: "valid_ym year month" and t: "100 \<le> getFullYear (localDate z now)"
    and w: "\<forall>c\<in>set cs. wellFormedCycle c"
  shows "hasMenstruation
       (menstruationByDate (fetchMenstruationFromCycles z year month now (ResOk (Some cs)) st)) d
     \<longleftrightarrow> (\<exists>c\<in>set cs.
           d \<in> {cycleStartDate c .. effectiveEnd (localDate z now) (lastDayOf year month) c}
               \<inter> {firstDayOf year month .. lastDayOf year month})"
proof -
  have "hasMenstruation
       (menstruationByDate (fetchMenstruationFromCycles z year month now (ResOk (Some cs)) st)) d
     \<longleftrightarrow> (\<exists>c\<in>set cs.
           d \<in> cycleDates (firstDayOf year month) (lastDayOf year month) (localDate z now) c)"
    unfolding fetchMenstruation_ok [OF v t]
    by (rule hasMenstruation_forEachCycle [OF nz]) (rule fetch_dates(4) [OF v t])
  also have "\<dots> \<longleftrightarrow> (\<exists>c\<in>set cs.
           d \<in> {cycleStartDate c .. effectiveEnd (localDate z now) (lastDayOf year month) c}
               \<inter> {firstDayOf year month .. lastDayOf year month})"
    using w by (simp add: cycleDates_wellFormed)
  finally show ?thesis .
qed

text \<open>
  The scenario of the specification, in Japan: the open cycle that started on 2024-02-20,
  seen in March 2024 at noon of 2024-03-10, flags exactly the ten dates 2024-03-01 to
  2024-03-10, and the map holds exactly their ten keys.
\<close>

lemma scenario_values:
  "newDate 2024 2 1 = 19783" "newDate 2024 2 10 = 19792"
  "firstDayOf 2024 2 = 19783" "lastDayOf 2024 2 = 19813"
  "parseYmdToLocalDate ''2024-02-20'' = 19773"
  "isValidYmd (Some ''2024-02-20'')"
  by code_simp+

lemma year_of_19792: "100 \<le> getFullYear 19792"
  unfolding getFullYear_def by (rule YearFromTime_ge) (simp add: DayFromYear_def)

lemma tokyo_values:
  "summerTime tokyo = []" "localDate tokyo 1710039600000 = 19792"
  by (simp_all add: tokyo_def localDate_def LocalTime_def offsetAt_def Day_def msPerDay_def)

lemma march_2024_values:
  "MakeDay 2024 2 0 = 19782" "daysInMonthOf 2024 2 = 31"
  "numberToString 2024 = ''2024''" "twoDigits 3 = ''03''"
  by code_simp+

lemma march_2024_key:
  assumes "1 \<le> d" "d \<le> 31"
  shows "formatYmdLocal (19782 + d) = ''2024-03-'' @ twoDigits d"
proof -
  have m: "MakeDay 2024 2 d = 19782 + d"
    using MakeDay_add [of 2024 2 0 d] by (simp add: march_2024_values(1))
  have r: "d \<le> daysInMonthOf (2024 + 2 div 12) (2 mod 12)"
    using assms(2) by (simp add: march_2024_values(2))
  have f: "YearFromTime (19782 + d) = 2024" "MonthFromTime (19782 + d) = 2"
    "DateFromTime (19782 + d) = d"
    using MakeDay_fields [OF assms(1) r] unfolding m by simp_all
  show ?thesis
    unfolding formatYmdLocal_alt f by (simp add: march_2024_values(3,4))
qed

lemma march_2024_lists:
  "[19783 .. 19792] = map (\<lambda>d. 19782 + d) [1, 2, 3, 4, 5, 6, 7, 8, 9, 10]"
  "list_all (\<lambda>d. 1 \<le> d \<and> d \<le> 31) [1, 2, 3, 4, 5, 6, 7, 8, 9, 10 :: int]"
  "map (\<lambda>d. ''2024-03-'' @ twoDigits d) [1, 2, 3, 4, 5, 6, 7, 8, 9, 10]
     = [''2024-03-01'', ''2024-03-02'', ''2024-03-03'', ''2024-03-04'', ''2024-03-05'',
        ''2024-03-06'', ''2024-03-07'', ''2024-03-08'', ''2024-03-09'', ''2024-03-10'']"
  by code_simp+

lemma march_2024_keys:
  "formatYmdLocal ` {19783 .. 19792}
     = set [''2024-03-01'', ''2024-03-02'', ''2024-03-03'', ''2024-03-04'', ''2024-03-05'',
            ''2024-03-06'', ''2024-03-07'', ''2024-03-08'', ''2024-03-09'', ''2024-03-10'']"
proof -
  define ds :: "int list" where "ds = [1, 2, 3, 4, 5, 6, 7, 8, 9, 10]"
  have "formatYmdLocal ` {19783 .. 19792} = set (map formatYmdLocal [19783 .. 19792])"
    by (simp only: set_upto [symmetric] image_set)
  also have "[19783 .. 19792] = map (\<lambda>d. 19782 + d) ds"
    unfolding ds_def by (rule march_2024_lists(1))
  also have "map formatYmdLocal (map (\<lambda>d. 19782 + d) ds)
      = map (\<lambda>d. formatYmdLocal (19782 + d)) ds"
    by (simp only: map_map comp_def)
  also have "\<dots> = map (\<lambda>d. ''2024-03-'' @ twoDigits d) ds"
  proof (rule map_cong [OF refl])
    fix d assume "d \<in> set ds"
    then have "1 \<le> d \<and> d \<le> 31"
      using march_2024_lists(2) unfolding ds_def list_all_iff by blast
    then show "formatYmdLocal (19782 + d) = ''2024-03-'' @ twoDigits d"
      using march_2024_key by blast
  qed
  also have "\<dots> = [''2024-03-01'', ''2024-03-02'', ''2024-03-03'', ''2024-03-04'',
      ''2024-03-05'', ''2024-03-06'', ''2024-03-07'', ''2024-03-08'', ''2024-03-09'',
      ''2024-03-10'']"
    unfolding ds_def by (rule march_2024_lists(3))
  finally show ?thesis .
qed


lemma scenario_in_tokyo:
  "hasMenstruation
     (menstruationByDate
        (fetchMenstruationFromCycles tokyo 2024 2 1710039600000
           (ResOk (Some [\<lparr> start_date = Some ''2024-02-20'', end_date = None \<rparr>])) st)) d
   \<longleftrightarrow> newDate 2024 2 1 \<le> d \<and> d \<le> newDate 2024 2 10"
  "menstruationByDate
     (fetchMenstruationFromCycles tokyo 2024 2 1710039600000
        (ResOk (Some [\<lparr> start_date = Some ''2024-02-20'', end_date = None \<rparr>])) st) k
   = (if k \<in> set [''2024-03-01'', ''2024-03-02'', ''2024-03-03'', ''2024-03-04'',
         ''2024-03-05'', ''2024-03-06'', ''2024-03-07'', ''2024-03-08'', ''2024-03-09'',
         ''2024-03-10'']
      then Some True else None)"
proof -
  define c where "c = \<lparr> start_date = Some ''2024-02-20'', end_date = None \<rparr>"
  have v: "valid_ym 2024 2" by (simp add: valid_ym_def)
  have t: "100 \<le> getFullYear (localDate tokyo 1710039600000)"
    unfolding tokyo_values by (rule year_of_19792)
  have w: "wellFormedCycle c"
    by (simp add: wellFormedCycle_def c_def scenario_values(6) del: isValidYmd.simps)
  have w': "\<forall>x\<in>set [c]. wellFormedCycle x" using w by simp
  have cs: "cycleStartDate c = 19773" by (simp add: cycleStartDate_def c_def scenario_values)
  have ce: "effectiveEnd 19792 19813 c = 19792" by (simp add: effectiveEnd_def c_def)
  have "hasMenstruation
     (menstruationByDate
        (fetchMenstruationFromCycles tokyo 2024 2 1710039600000 (ResOk (Some [c])) st)) d
      \<longleftrightarrow> newDate 2024 2 1 \<le> d \<and> d \<le> newDate 2024 2 10"
    using flags_clipped_without_summer_time [OF tokyo_values(1) v t w', where d = d]
    by (auto simp: scenario_values tokyo_values cs ce)
  then show "hasMenstruation
     (menstruationByDate
        (fetchMenstruationFromCycles tokyo 2024 2 1710039600000
           (ResOk (Some [\<lparr> start_date = Some ''2024-02-20'', end_date = None \<rparr>])) st)) d
      \<longleftrightarrow> newDate 2024 2 1 \<le> d \<and> d \<le> newDate 2024 2 10"
    unfolding c_def .
  have d: "cycleDates (firstDayOf 2024 2) (lastDayOf 2024 2) (localDate tokyo 1710039600000) c
      = {19783 .. 19792}"
    unfolding cycleDates_wellFormed [OF w] scenario_values tokyo_values cs ce by auto
  have one: "(\<exists>x\<in>set [c]. Q x) \<longleftrightarrow> Q c" for Q by simp
  have "menstruationByDate
     (fetchMenstruationFromCycles tokyo 2024 2 1710039600000 (ResOk (Some [c])) st) k
    = (if \<exists>x\<in>set [c]. k \<in> formatYmdLocal
            ` cycleDates (firstDayOf 2024 2) (lastDayOf 2024 2)
                (localDate tokyo 1710039600000) x
       then Some True else Map.empty k)"
    unfolding fetchMenstruation_ok [OF v t]
    by (rule forEachCycle_lookup [OF tokyo_values(1) fetch_dates(4) [OF v t]])
  then have "menstruationByDate
     (fetchMenstruationFromCycles tokyo 2024 2 1710039600000 (ResOk (Some [c])) st) k
    = (if k \<in> set [''2024-03-01'', ''2024-03-02'', ''2024-03-03'', ''2024-03-04'',
         ''2024-03-05'', ''2024-03-06'', ''2024-03-07'', ''2024-03-08'', ''2024-03-09'',
         ''2024-03-10'']
       then Some True else None)"
    unfolding one d march_2024_keys .
  then show "menstruationByDate
     (fetchMenstruationFromCycles tokyo 2024 2 1710039600000
        (ResOk (Some [\<lparr> start_date = Some ''2024-02-20'', end_date = None \<rparr>])) st) k
   = (if k \<in> set [''2024-03-01'', ''2024-03-02'', ''2024-03-03'', ''2024-03-04'',
         ''2024-03-05'', ''2024-03-06'', ''2024-03-07'', ''2024-03-08'', ''2024-03-09'',
         ''2024-03-10'']
      then Some True else None)"
    unfolding c_def .
qed

subsection \<open>A skipped midnight\<close>

text \<open>
  November 2018 in Sao Paulo, seen at noon UTC of 20 November, with the closed cycle from
  2018-11-02 to 2018-11-06.
\<close>

lemma november_2018:
  "firstDayOf 2018 10 = 17836" "lastDayOf 2018 10 = 17865"
  "newDate 2018 10 6 = 17841"
  "parseYmdToLocalDate ''2018-11-02'' = 17837" "parseYmdToLocalDate ''2018-11-06'' = 17841"
  "isValidYmd (Some ''2018-11-02'')" "isValidYmd (Some ''2018-11-06'')"
  by code_simp+

lemma sao_paulo_dates:
  "localDate saoPaulo 1542715200000 = 17855"
  "dateAt saoPaulo 17836 = 1541041200000"
  "dateAt saoPaulo 17865 = 1543543200000"
  "dateAt saoPaulo 17855 = 1542679200000"
  "dateAt saoPaulo 17837 = 1541127600000"
  "dateAt saoPaulo 17841 = 1541469600000"
  by (simp_all add: localDate_def dateAt_def UTC_def possibleInstants_def LocalTime_def
      offsetAt_def saoPaulo_def MakeDate_def Day_def msPerDay_def msPerHour_def)

lemma sao_paulo_steps:
  "UTC saoPaulo (LocalTime saoPaulo 1541127600000 + msPerDay) = 1541214000000"
  "UTC saoPaulo (LocalTime saoPaulo 1541214000000 + msPerDay) = 1541300400000"
  "UTC saoPaulo (LocalTime saoPaulo 1541300400000 + msPerDay) = 1541386800000"
  "UTC saoPaulo (LocalTime saoPaulo 1541386800000 + msPerDay) = 1541473200000"
  "localDate saoPaulo 1541127600000 = 17837"
  "localDate saoPaulo 1541214000000 = 17838"
  "localDate saoPaulo 1541300400000 = 17839"
  "localDate saoPaulo 1541386800000 = 17840"
  by (simp_all add: localDate_def UTC_def possibleInstants_def LocalTime_def
      offsetAt_def saoPaulo_def MakeDate_def Day_def msPerDay_def msPerHour_def)

text \<open>After the step to 4 November the local time of \<open>cur\<close> is one o'clock, and stays so.\<close>

lemma sao_paulo_one_o_clock:
  "possibleInstants saoPaulo (MakeDate 17839 0) = []"
  "LocalTime saoPaulo 1541300400000 = MakeDate 17839 msPerHour"
  "LocalTime saoPaulo 1541386800000 = MakeDate 17840 msPerHour"
  "LocalTime saoPaulo 1541473200000 = MakeDate 17841 msPerHour"
  "LocalTime saoPaulo 1541469600000 = MakeDate 17841 0"
  by (simp_all add: possibleInstants_def LocalTime_def offsetAt_def saoPaulo_def MakeDate_def
      msPerDay_def msPerHour_def)


lemma november_2018_values:
  "newDate 2018 10 0 = 17835" "jsYear 2018 = 2018" "daysInMonthOf 2018 10 = 30"
  "numberToString 2018 = ''2018''" "twoDigits 11 = ''11''"
  "map twoDigits [2, 3, 4, 5, 6] = [''02'', ''03'', ''04'', ''05'', ''06'']"
  by (simp_all add: newDate_def MakeDay_def DayFromYear_def DaysInYear_def monthStartDay_def
      jsYear_def daysInMonthOf_def twoDigits_def padStart2_def numberToString_def
      natToDigits.simps digitChar_def)

lemma november_2018_key:
  assumes "1 \<le> d" "d \<le> 30"
  shows "formatYmdLocal (17835 + d) = ''2018-11-'' @ twoDigits d"
proof -
  have n: "newDate 2018 10 d = 17835 + d"
    using newDate_add [of 2018 10 0 d] by (simp add: november_2018_values(1))
  have r: "d \<le> daysInMonthOf (jsYear 2018) 10"
    using assms(2) by (simp add: november_2018_values)
  show ?thesis
    using formatYmdLocal_newDate [OF _ _ assms(1) r] unfolding n
    by (simp add: november_2018_values)
qed

lemma november_2018_keys:
  "formatYmdLocal 17837 = ''2018-11-02''" "formatYmdLocal 17838 = ''2018-11-03''"
  "formatYmdLocal 17839 = ''2018-11-04''" "formatYmdLocal 17840 = ''2018-11-05''"
  "formatYmdLocal 17841 = ''2018-11-06''"
  using november_2018_key [of 2] november_2018_key [of 3] november_2018_key [of 4]
    november_2018_key [of 5] november_2018_key [of 6] november_2018_values(6)
  by simp_all

lemma year_2018: "100 \<le> YearFromTime 17836" "100 \<le> getFullYear 17855"
  unfolding getFullYear_def by (rule YearFromTime_ge, simp add: DayFromYear_def)+

lemma sao_paulo_loop:
  "fillDays saoPaulo 1541127600000 1541469600000 Map.empty
     = [''2018-11-02'' \<mapsto> True, ''2018-11-03'' \<mapsto> True, ''2018-11-04'' \<mapsto> True,
        ''2018-11-05'' \<mapsto> True]"
proof -
  have "fillDays saoPaulo 1541127600000 1541469600000 Map.empty
      = fillDays saoPaulo 1541214000000 1541469600000 [''2018-11-02'' \<mapsto> True]"
    by (subst fillDays_step(1), simp, simp only: sao_paulo_steps november_2018_keys)
  also have "\<dots> = fillDays saoPaulo 1541300400000 1541469600000
      [''2018-11-02'' \<mapsto> True, ''2018-11-03'' \<mapsto> True]"
    by (subst fillDays_step(1), simp, simp only: sao_paulo_steps november_2018_keys)
  also have "\<dots> = fillDays saoPaulo 1541386800000 1541469600000
      [''2018-11-02'' \<mapsto> True, ''2018-11-03'' \<mapsto> True, ''2018-11-04'' \<mapsto> True]"
    by (subst fillDays_step(1), simp, simp only: sao_paulo_steps november_2018_keys)
  also have "\<dots> = fillDays saoPaulo 1541473200000 1541469600000
      [''2018-11-02'' \<mapsto> True, ''2018-11-03'' \<mapsto> True, ''2018-11-04'' \<mapsto> True,
       ''2018-11-05'' \<mapsto> True]"
    by (subst fillDays_step(1), simp, simp only: sao_paulo_steps november_2018_keys)
  also have "\<dots> = [''2018-11-02'' \<mapsto> True, ''2018-11-03'' \<mapsto> True, ''2018-11-04'' \<mapsto> True,
       ''2018-11-05'' \<mapsto> True]"
    by (subst fillDays_step(2), simp, rule refl)
  finally show ?thesis .
qed


lemma sao_paulo_cycle:
  "markCycle saoPaulo 1541041200000 1543543200000 1542679200000
     \<lparr> start_date = Some ''2018-11-02'', end_date = Some ''2018-11-06'' \<rparr> Map.empty
   = fillDays saoPaulo 1541127600000 1541469600000 Map.empty"
proof -
  have y: "100 \<le> YearFromTime 17837"
    using YearFromTime_mono [of 17836 17837] year_2018(1) by simp
  have cur: "newDate (getFullYear 17837) (getMonth 17837) (getDate 17837) = 17837"
    using newDate_of_fields [OF y, of 0] by simp
  show ?thesis
    by (simp add: markCycle_def Let_def parseYmdAt_def november_2018 sao_paulo_dates
        sao_paulo_steps cur del: isValidYmd.simps)
qed

lemma sao_paulo_sixth:
  "[''2018-11-02'' \<mapsto> True, ''2018-11-03'' \<mapsto> True, ''2018-11-04'' \<mapsto> True,
    ''2018-11-05'' \<mapsto> True] ''2018-11-06'' = None"
  by code_simp

text \<open>
  C1.  In Sao Paulo the summer time of 2018 began at midnight of 4 November, so that day
  had no midnight.  The loop starts at midnight of 2 November; the step to 4 November
  lands at one o'clock, and every later step keeps that time of day.  The end of the
  cycle is midnight of 6 November, so on 6 November \<open>cur\<close> is later than the end and the
  loop stops.  The map holds the four keys 2018-11-02 to 2018-11-05 and no other, and the
  cell of 2018-11-06 is not flagged, although that date lies in the inclusive range from
  the start to the end of the cycle and in the window of the month.
\<close>

theorem last_day_unflagged_after_skipped_midnight:
  "menstruationByDate
     (fetchMenstruationFromCycles saoPaulo 2018 10 1542715200000
        (ResOk (Some [\<lparr> start_date = Some ''2018-11-02'', end_date = Some ''2018-11-06'' \<rparr>]))
        \<lparr> recordsByDate = Map.empty, menstruationByDate = Map.empty,
          isLoading = False, fetchError = None \<rparr>)
     = [''2018-11-02'' \<mapsto> True, ''2018-11-03'' \<mapsto> True, ''2018-11-04'' \<mapsto> True,
        ''2018-11-05'' \<mapsto> True]
   \<and> formatYmdLocal (newDate 2018 10 6) = ''2018-11-06''
   \<and> \<not> hasMenstruation
       (menstruationByDate
          (fetchMenstruationFromCycles saoPaulo 2018 10 1542715200000
             (ResOk (Some [\<lparr> start_date = Some ''2018-11-02'', end_date = Some ''2018-11-06'' \<rparr>]))
             \<lparr> recordsByDate = Map.empty, menstruationByDate = Map.empty,
               isLoading = False, fetchError = None \<rparr>))
       (newDate 2018 10 6)
   \<and> newDate 2018 10 6
       \<in> {cycleStartDate \<lparr> start_date = Some ''2018-11-02'', end_date = Some ''2018-11-06'' \<rparr> ..
           effectiveEnd (localDate saoPaulo 1542715200000) (lastDayOf 2018 10)
             \<lparr> start_date = Some ''2018-11-02'', end_date = Some ''2018-11-06'' \<rparr>}
         \<inter> {firstDayOf 2018 10 .. lastDayOf 2018 10}"
proof -
  define c where "c = \<lparr> start_date = Some ''2018-11-02'', end_date = Some ''2018-11-06'' \<rparr>"
  define st where "st = \<lparr> recordsByDate = Map.empty, menstruationByDate = Map.empty,
      isLoading = False, fetchError = None \<rparr>"
  define M where "M = menstruationByDate
     (fetchMenstruationFromCycles saoPaulo 2018 10 1542715200000 (ResOk (Some [c])) st)"
  have v: "valid_ym 2018 10" by (simp add: valid_ym_def)
  have t: "100 \<le> getFullYear (localDate saoPaulo 1542715200000)"
    unfolding sao_paulo_dates by (rule year_2018(2))
  have "M = markCycle saoPaulo 1541041200000 1543543200000 1542679200000 c Map.empty"
    unfolding M_def fetchMenstruation_ok [OF v t] november_2018 sao_paulo_dates by simp
  then have m: "M = [''2018-11-02'' \<mapsto> True, ''2018-11-03'' \<mapsto> True, ''2018-11-04'' \<mapsto> True,
      ''2018-11-05'' \<mapsto> True]"
    unfolding c_def sao_paulo_cycle sao_paulo_loop .
  have k: "formatYmdLocal (newDate 2018 10 6) = ''2018-11-06''"
    unfolding november_2018 by (rule november_2018_keys(5))
  have n: "\<not> hasMenstruation M (newDate 2018 10 6)"
    unfolding hasMenstruation_def k m sao_paulo_sixth by simp
  have i: "newDate 2018 10 6
       \<in> {cycleStartDate c ..
           effectiveEnd (localDate saoPaulo 1542715200000) (lastDayOf 2018 10) c}
         \<inter> {firstDayOf 2018 10 .. lastDayOf 2018 10}"
    by (simp add: cycleStartDate_def effectiveEnd_def c_def november_2018)
  from m k n i show ?thesis unfolding M_def c_def st_def by blast
qed

subsection \<open>Dates that are not well formed\<close>




section \<open>Failed reads of the background data\<close>

text \<open>A failed read of the cycle list sets the empty map: no date is flagged.\<close>

lemma cycles_fetch_failure_empty:
  assumes "res = FetchThrew \<or> res = ResNotOk \<or> res = JsonThrew"
  shows "menstruationByDate (fetchMenstruationFromCycles z year month now res st) = Map.empty"
    and "\<not> hasMenstruation
           (menstruationByDate (fetchMenstruationFromCycles z year month now res st)) d"
  using assms by (auto simp: fetchMenstruationFromCycles_def Let_def hasMenstruation_def)

text \<open>
  A failed read of the daily records of a month that is not wholly in the future sets the
  error and leaves the map of summaries as it was.
\<close>

lemma records_fetch_failure_keeps_map:
  assumes "\<not> formatYmdLocal (newDate year month 1) > formatYmdLocal now"
    and "res = FetchThrew \<or> res = ResNotOk \<or> res = JsonThrew"
  shows "recordsByDate (fst (fetchMonthlyRecords year month now res st)) = recordsByDate st"
    and "fetchError (fst (fetchMonthlyRecords year month now res st)) = Some RecordsFetchFailed"
  using assms by (auto simp: fetchMonthlyRecords_def Let_def)

lemma april_values:
  "\<not> formatYmdLocal (newDate 2024 3 1) > formatYmdLocal (newDate 2024 3 15)"
  "formatYmdLocal (newDate 2024 2 31) = ''2024-03-31''"
  by code_simp+

lemma april_grid_first_cell:
  "map_sum id (\<lambda>ds. cellDate (ds ! 0)) (days 2024 3) = Inr (newDate 2024 2 31)"
  by code_simp

text \<open>
  C8.  A failed read of the cycle list degrades to the empty map
  (\<open>cycles_fetch_failure_empty\<close>).  A failed read of the daily records does not: when March
  2024 has been shown with a record for 2024-03-31, and the page moves to April 2024 (month
  3) on 2024-04-15 and the request for April fails, the summary of 2024-03-31 is still
  in the map.  That day is the first cell of the April grid, so its cell still gets a
  summary, and with sort category "none" its sleep glyph is visible.
\<close>

theorem records_fetch_failure_keeps_stale_summary:
  "map_sum id (\<lambda>ds. cellDate (ds ! 0)) (days 2024 3) = Inr (newDate 2024 2 31)
   \<and> summaryOf
     (recordsByDate
        (fst (fetchMonthlyRecords 2024 3 (newDate 2024 3 15) ResNotOk
           \<lparr> recordsByDate =
               [''2024-03-31'' \<mapsto> \<lparr> sleepQuality = 5, stressLevel = 3, skinCondition = 4,
                   skincareEffort = 3, memo = [], prefecture = [] \<rparr>],
             menstruationByDate = Map.empty, isLoading = False, fetchError = None \<rparr>)))
     (newDate 2024 2 31)
   = Some \<lparr> sleepQuality = 5, stressLevel = 3, skinCondition = 4,
            skincareEffort = 3, memo = [], prefecture = [] \<rparr>
   \<and> isIconVisible
       (summaryOf
          (recordsByDate
             (fst (fetchMonthlyRecords 2024 3 (newDate 2024 3 15) ResNotOk
                \<lparr> recordsByDate =
                    [''2024-03-31'' \<mapsto> \<lparr> sleepQuality = 5, stressLevel = 3, skinCondition = 4,
                        skincareEffort = 3, memo = [], prefecture = [] \<rparr>],
                  menstruationByDate = Map.empty, isLoading = False, fetchError = None \<rparr>)))
          (newDate 2024 2 31))
       \<lparr> category = CatNone, direction = None \<rparr> Sleep"
  by (simp add: summaryOf_def records_fetch_failure_keeps_map(1) [OF april_values(1)]
      april_values(2) april_grid_first_cell)

section \<open>Properties of the cycle screen\<close>

subsection \<open>A start date in the future\<close>

text \<open>
  The start button compares the draft with today as strings.  A draft that is later than
  today as a string is rejected on the screen: no request, the list and both drafts as
  they were, and the error that a start date must not lie in the future.
\<close>

lemma later_string_rejected:
  assumes "today < startDraft s"
  shows "rejectedLocally today s"
proof -
  from assms have "startDraft s \<noteq> []" by auto
  with assms show ?thesis by (simp add: rejectedLocally_def startClick_def Let_def)
qed

text \<open>
  For two dates whose years have four digits the later date has the later string, so a
  start date after today is rejected when both are written by the screen.
\<close>

lemma four_digit_future_start_rejected:
  assumes "fourDigitYear t" "fourDigitYear a" "t < a"
    and "today = formatYmdLocal t" "startDraft s = formatYmdLocal a"
  shows "rejectedLocally today s"
proof -
  have "today < startDraft s"
    using assms formatYmdLocal_less_iff [of t a]
    by (simp add: fourDigitYear_def getFullYear_def)
  then show ?thesis by (rule later_string_rejected)
qed

text \<open>
  The scenario of the specification: start date 2099-01-01 when today is 2024-06-01, as
  strings and as the dates \<^verbatim>\<open>new Date(2099, 0, 1)\<close> and \<^verbatim>\<open>new Date(2024, 5, 1)\<close>.
\<close>

lemma later_2099: "''2024-06-01'' < ''2099-01-01''"
  by code_simp

lemma dates_2099:
  "formatYmdLocal (newDate 2024 5 1) = ''2024-06-01''"
  "formatYmdLocal (newDate 2099 0 1) = ''2099-01-01''"
  "fourDigitYear (newDate 2024 5 1)" "fourDigitYear (newDate 2099 0 1)"
  "newDate 2024 5 1 < newDate 2099 0 1"
  by code_simp+

lemma start_2099_rejected:
  "startClick ''2024-06-01'' (initialState ''2099-01-01'')
     = ((initialState ''2099-01-01'')\<lparr> error := Some ErrStartFuture \<rparr>, None)"
  "rejectedLocally (formatYmdLocal (newDate 2024 5 1))
     (initialState (formatYmdLocal (newDate 2099 0 1)))"
proof -
  show "startClick ''2024-06-01'' (initialState ''2099-01-01'')
     = ((initialState ''2099-01-01'')\<lparr> error := Some ErrStartFuture \<rparr>, None)"
    using later_2099 by (simp add: startClick_def Let_def initialState_def openCycle_def)
  show "rejectedLocally (formatYmdLocal (newDate 2024 5 1))
     (initialState (formatYmdLocal (newDate 2099 0 1)))"
    by (rule four_digit_future_start_rejected [OF dates_2099(3,4,5)])
      (simp_all add: initialState_def)
qed

lemma values_10000:
  "jsYear 10000 = 10000" "daysInMonthOf 10000 0 = 31"
  "numberToString 10000 = ''10000''" "twoDigits 1 = ''01''"
  by (simp_all add: jsYear_def daysInMonthOf_def twoDigits_def padStart2_def numberToString_def
      natToDigits.simps digitChar_def)

lemma dates_10000:
  "formatYmdLocal (newDate 10000 0 1) = ''10000-01-01''"
  "newDate 2024 5 1 < newDate 10000 0 1"
  "\<not> ''2024-06-01'' < ''10000-01-01''"
proof -
  have "1 \<le> daysInMonthOf (jsYear 10000) 0" by (simp only: values_10000)
  from formatYmdLocal_newDate [OF _ _ _ this]
  show "formatYmdLocal (newDate 10000 0 1) = ''10000-01-01''"
    by (simp add: values_10000)
  show "newDate 2024 5 1 < newDate 10000 0 1" by code_simp
  show "\<not> ''2024-06-01'' < ''10000-01-01''" by code_simp
qed

text \<open>
  C6.  On 2024-06-01 the start date 10000-01-01 lies in the future, and it is not
  rejected: its string begins with the digit 1 and is not later than the string of today.  The page opened with \<^verbatim>\<open>?date=10000-01-01\<close> on 2024-06-01 has this draft from
  its first render; a click on the start button then sends \<^verbatim>\<open>POST /cycles\<close> with the
  start date 10000-01-01 and sets \<^verbatim>\<open>isSaving\<close>.
\<close>

theorem start_in_year_10000_is_sent:
  "newDate 2024 5 1 < newDate 10000 0 1
   \<and> formatYmdLocal (newDate 2024 5 1) = ''2024-06-01''
   \<and> formatYmdLocal (newDate 10000 0 1) = ''10000-01-01''
   \<and> startClick ''2024-06-01'' (initialState ''10000-01-01'')
       = ((initialState ''10000-01-01'')\<lparr> isSaving := True \<rparr>, Some (PostCycles ''10000-01-01''))"
proof -
  have "startClick ''2024-06-01'' (initialState ''10000-01-01'')
       = ((initialState ''10000-01-01'')\<lparr> isSaving := True \<rparr>, Some (PostCycles ''10000-01-01''))"
    using dates_10000(3) by (simp add: startClick_def Let_def initialState_def openCycle_def)
  with dates_10000(1,2) dates_2099(1) show ?thesis by blast
qed

text \<open>So the click is not rejected on the screen: a request leaves, and saving begins.\<close>

theorem start_in_year_10000_is_sent_witness:
  "snd (startClick ''2024-06-01'' (initialState ''10000-01-01''))
     = Some (PostCycles ''10000-01-01'')
   \<and> isSaving (fst (startClick ''2024-06-01'' (initialState ''10000-01-01'')))
   \<and> \<not> rejectedLocally ''2024-06-01'' (initialState ''10000-01-01'')"
  using start_in_year_10000_is_sent by (simp add: rejectedLocally_def)

subsection \<open>Capture, rollback and refresh\<close>

text \<open>
  The three buttons of the registration card.  A click on the enabled button whose drafts
  pass the checks stores the values to go back to in the two refs and sends the request:
  the two drafts for the start and the end button, and the start date of the open cycle
  and the end draft for the update of the start date.
\<close>

lemma start_click_captures:
  assumes "\<not> isSaving s" "openCycle (cycles s) = None" "startDraft s \<noteq> []"
    and "\<not> today < startDraft s"
  shows "startClick today s
     = (s\<lparr> prevStartRef := startDraft s, prevEndRef := endDraft s,
           isSaving := True, error := None, message := None \<rparr>,
        Some (PostCycles (startDraft s)))"
  using assms by (simp add: startClick_def Let_def)

lemma update_start_click_captures:
  assumes "openCycle (cycles s) = Some oc" "isEditingStart s" "\<not> isSaving s"
    and "startDraft s \<noteq> []" "\<not> today < startDraft s"
    and "endDraft s = [] \<or> \<not> endDraft s < startDraft s"
  shows "updateStartClick today s
     = (s\<lparr> prevStartRef := log_start_date oc, prevEndRef := endDraft s,
           isSaving := True, error := None, message := None \<rparr>,
        Some (PatchCycle (cycle_id oc) (Some (startDraft s)) None))"
  using assms by (auto simp: updateStartClick_def Let_def)

lemma end_click_captures:
  assumes "\<not> isSaving s" "openCycle (cycles s) = Some oc" "\<not> isEditingStart s"
    and "endDraft s \<noteq> []" "\<not> today < endDraft s"
    and "startDraft s = [] \<or> \<not> endDraft s < startDraft s"
  shows "endClick today s
     = (s\<lparr> prevStartRef := startDraft s, prevEndRef := endDraft s,
           isSaving := True, error := None, message := None \<rparr>,
        Some (PatchCyclesEnd (endDraft s)))"
  using assms by (auto simp: endClick_def Let_def)

text \<open>
  When the request of a button fails, in whatever state the response arrives, no further
  request is made, the drafts are set from the two refs, the error is set, saving ends
  and the list is not touched.  The same happens when the request succeeds and the
  \<^verbatim>\<open>GET\<close> of the list fails.
\<close>

lemma failed_request_restores_drafts:
  assumes "mres \<noteq> MutOk"
  shows "startPosted mres s = (rollbackDrafts ErrStartRegisterFailed s, None)"
    and "updateStartPatched mres s = (rollbackDrafts ErrStartUpdateFailed s, None)"
    and "endPatched mres s = (rollbackDrafts ErrEndRegisterFailed s, None)"
    and "startDraft (rollbackDrafts e s) = prevStartRef s"
    and "endDraft (rollbackDrafts e s) = prevEndRef s"
    and "error (rollbackDrafts e s) = Some e"
    and "\<not> isSaving (rollbackDrafts e s)"
    and "cycles (rollbackDrafts e s) = cycles s"
  using assms
  by (simp_all add: startPosted_def updateStartPatched_def endPatched_def rollbackDrafts_def)

lemma failed_refresh_restores_drafts:
  assumes "fres = FetchThrew \<or> fres = ResNotOk \<or> fres = JsonThrew"
  shows "startFetched v fres s = rollbackDrafts ErrStartRegisterFailed s"
    and "updateStartFetched v fres s = rollbackDrafts ErrStartUpdateFailed s"
    and "endFetched v fres s = rollbackDrafts ErrEndRegisterFailed s"
  using assms
  by (auto simp: startFetched_def updateStartFetched_def endFetched_def fetchCycles_def)

text \<open>
  When the request of a button succeeds, the next request is the \<^verbatim>\<open>GET\<close> of the list, and
  the list that arrives replaces the list of the screen; the drafts are then set from
  the open cycle of the new list by the effect \<open>syncDrafts\<close>.
\<close>

lemma successful_request_refreshes:
  "startPosted MutOk s = (s, Some GetCycles)"
  "updateStartPatched MutOk s = (s, Some GetCycles)"
  "endPatched MutOk s = (s, Some GetCycles)"
  "cycles (startFetched v (ResOk cs) s) = cs"
  "cycles (updateStartFetched v (ResOk cs) s) = cs"
  "cycles (endFetched v (ResOk cs) s) = cs"
  "startDraft (syncDrafts selectedDate s)
     = (case openCycle (cycles s) of Some oc \<Rightarrow> log_start_date oc | None \<Rightarrow> selectedDate)"
  "endDraft (syncDrafts selectedDate s) = selectedDate"
  by (simp_all add: startPosted_def updateStartPatched_def endPatched_def startFetched_def
      updateStartFetched_def endFetched_def fetchCycles_def syncDrafts_def
      split: option.splits)

text \<open>
  The scenario of the specification: on 2024-06-01 a start on 2024-05-30 is sent, the draft
  is changed to 2024-05-31 while the request is in flight, and the service rejects the
  request because another open cycle exists.  The draft goes back to 2024-05-30, the
  error is set and the cycle list is still empty.
\<close>

lemma not_later_0530: "\<not> ''2024-06-01'' < ''2024-05-30''"
  by code_simp

lemma start_conflict_scenario:
  "startClick ''2024-06-01'' (initialState ''2024-05-30'')
     = ((initialState ''2024-05-30'')\<lparr> isSaving := True \<rparr>, Some (PostCycles ''2024-05-30''))"
  "startDraft (changeStartDraft ''2024-05-31''
         ((initialState ''2024-05-30'')\<lparr> isSaving := True \<rparr>)) = ''2024-05-31''"
  "startPosted MutNotOk
         (changeStartDraft ''2024-05-31'' ((initialState ''2024-05-30'')\<lparr> isSaving := True \<rparr>))
     = ((initialState ''2024-05-30'')\<lparr> error := Some ErrStartRegisterFailed \<rparr>, None)"
  using not_later_0530
  by (simp_all add: startClick_def Let_def initialState_def openCycle_def changeStartDraft_def
      startPosted_def rollbackDrafts_def)

text \<open>
  The other two buttons, with the open cycle from 2024-05-20 loaded on 2024-06-01.  The end
  date 2024-06-01 is sent and the request fails: the drafts are as they were when the
  button was clicked, and the error is set.  The start date is edited to 2024-05-18 and
  sent, and the request fails: the start draft goes back to the stored 2024-05-20.
\<close>

lemma open_cycle_values:
  "\<not> ''2024-06-01'' < ''2024-06-01''" "\<not> ''2024-06-01'' < ''2024-05-20''"
  "\<not> ''2024-06-01'' < ''2024-05-18''"
  by code_simp+

lemma end_and_update_start_scenarios:
  fixes s0 s1 :: CyclesState
  defines "s0 \<equiv> syncDrafts ''2024-06-01''
      (loadCycles
         (ResOk [\<lparr> cycle_id = ''a'', log_start_date = ''2024-05-20'', log_end_date = None \<rparr>])
         (initialState ''2024-06-01''))"
    and "s1 \<equiv> changeStartDraft ''2024-05-18'' (toggleEditStart s0)"
  shows "startDraft s0 = ''2024-05-20''" "endDraft s0 = ''2024-06-01''"
    and "endClick ''2024-06-01'' s0
       = (s0\<lparr> prevStartRef := ''2024-05-20'', prevEndRef := ''2024-06-01'', isSaving := True \<rparr>,
          Some (PatchCyclesEnd ''2024-06-01''))"
    and "endPatched MutNotOk (fst (endClick ''2024-06-01'' s0))
       = (s0\<lparr> error := Some ErrEndRegisterFailed \<rparr>, None)"
    and "updateStartClick ''2024-06-01'' s1
       = (s1\<lparr> isSaving := True \<rparr>, Some (PatchCycle ''a'' (Some ''2024-05-18'') None))"
    and "updateStartPatched MutNotOk (fst (updateStartClick ''2024-06-01'' s1))
       = (s1\<lparr> startDraft := ''2024-05-20'', error := Some ErrStartUpdateFailed \<rparr>, None)"
  using open_cycle_values
  by (simp_all add: s0_def s1_def syncDrafts_def loadCycles_def fetchCycles_def initialState_def
      openCycle_def endClick_def endPatched_def rollbackDrafts_def toggleEditStart_def
      changeStartDraft_def updateStartClick_def updateStartPatched_def Let_def)

text \<open>
  The card of a closed cycle.  A click on the enabled button whose fields pass the checks
  sends the fields as they are on the card, and since \<^verbatim>\<open>isSaving\<close> changes the screen is
  rendered: the card on the screen is a new one with the stored dates of the cycle.  When
  the request fails the error is set and saving ends; the card on the screen is again a
  new one with the stored dates, whatever \<open>prevStart\<close> and \<open>prevEnd\<close> are.
\<close>

lemma card_click_sends_and_remounts:
  assumes "\<not> isSaving s" "card_start crd \<noteq> []"
    and "card_end crd = [] \<or> \<not> card_end crd < card_start crd"
    and "\<not> today < card_start crd" "\<not> today < card_end crd"
  shows "handleUpdate today cycle (s, crd)
     = ((s\<lparr> error := None, message := None, isSaving := True \<rparr>, cardInit cycle),
        Some (PatchCycle (cycle_id cycle) (Some (card_start crd))
                (if card_end crd = [] then None else Some (card_end crd))))"
  using assms by (auto simp: handleUpdate_def Let_def cardAfter_def hooksDiffer_def)

lemma card_failure_shows_stored_dates:
  assumes "mres \<noteq> MutOk" "isSaving s"
  shows "handleUpdatePatched prevStart prevEnd cycle mres (s, crd)
     = ((s\<lparr> error := Some ErrUpdateFailed, isSaving := False \<rparr>, cardInit cycle), None)"
  using assms
  by (simp add: handleUpdatePatched_def cardRollback_def Let_def cardAfter_def hooksDiffer_def)

lemma card_success_refreshes:
  "handleUpdatePatched prevStart prevEnd cycle MutOk sc = (sc, Some GetCycles)"
  "cycles (fst (handleUpdateFetched prevStart prevEnd cycle (ResOk cs) (s, crd))) = cs"
  "snd (handleUpdateFetched prevStart prevEnd cycle (ResOk cs) (s, crd))
     = map_option cardInit (find (\<lambda>c. cycle_id c = cycle_id cycle) (pastCycles cs))"
  by (simp_all add: handleUpdatePatched_def handleUpdateFetched_def fetchCycles_def Let_def
      cardOfKey_def)

lemma card_values:
  "\<not> ''2024-05-05'' < ''2024-05-02''" "\<not> ''2024-06-01'' < ''2024-05-02''"
  "\<not> ''2024-06-01'' < ''2024-05-05''" "''2024-05-01'' \<noteq> ''2024-05-02''"
  by code_simp+

text \<open>
  C7.  The screen has loaded the closed cycle from 2024-05-01 to 2024-05-05, and today is
  2024-06-01.  The start field of its card is changed to 2024-05-02 and the update button
  is clicked.  The click captures the two fields, 2024-05-02 and 2024-05-05, and sends
  them; the render that follows \<^verbatim>\<open>setIsSaving(true)\<close> puts a new card with the dates
  2024-05-01 and 2024-05-05 on the screen.  The request fails.  The error is set and
  saving ends, and the start field on the screen is 2024-05-01, not the captured
  2024-05-02: the captured values were written to the card that is no longer mounted.
\<close>

theorem card_rollback_misses_the_mounted_card:
  "handleUpdate ''2024-06-01''
       \<lparr> cycle_id = ''c1'', log_start_date = ''2024-05-01'', log_end_date = Some ''2024-05-05'' \<rparr>
       (loadCycles
          (ResOk [\<lparr> cycle_id = ''c1'', log_start_date = ''2024-05-01'',
                    log_end_date = Some ''2024-05-05'' \<rparr>])
          (initialState ''2024-06-01''),
        \<lparr> card_start = ''2024-05-02'', card_end = ''2024-05-05'' \<rparr>)
     = (((initialState ''2024-06-01'')
           \<lparr> cycles := [\<lparr> cycle_id = ''c1'', log_start_date = ''2024-05-01'',
                           log_end_date = Some ''2024-05-05'' \<rparr>],
             isSaving := True \<rparr>,
         \<lparr> card_start = ''2024-05-01'', card_end = ''2024-05-05'' \<rparr>),
        Some (PatchCycle ''c1'' (Some ''2024-05-02'') (Some ''2024-05-05'')))
   \<and> handleUpdatePatched ''2024-05-02'' ''2024-05-05''
       \<lparr> cycle_id = ''c1'', log_start_date = ''2024-05-01'', log_end_date = Some ''2024-05-05'' \<rparr>
       MutNotOk
       ((initialState ''2024-06-01'')
           \<lparr> cycles := [\<lparr> cycle_id = ''c1'', log_start_date = ''2024-05-01'',
                           log_end_date = Some ''2024-05-05'' \<rparr>],
             isSaving := True \<rparr>,
        \<lparr> card_start = ''2024-05-01'', card_end = ''2024-05-05'' \<rparr>)
     = (((initialState ''2024-06-01'')
           \<lparr> cycles := [\<lparr> cycle_id = ''c1'', log_start_date = ''2024-05-01'',
                           log_end_date = Some ''2024-05-05'' \<rparr>],
             error := Some ErrUpdateFailed \<rparr>,
         \<lparr> card_start = ''2024-05-01'', card_end = ''2024-05-05'' \<rparr>),
        None)
   \<and> ''2024-05-01'' \<noteq> ''2024-05-02''"
proof -
  define c1 where
    "c1 = \<lparr> cycle_id = ''c1'', log_start_date = ''2024-05-01'', log_end_date = Some ''2024-05-05'' \<rparr>"
  define s0 where "s0 = (initialState ''2024-06-01'')\<lparr> cycles := [c1] \<rparr>"
  define crd where "crd = \<lparr> card_start = ''2024-05-02'', card_end = ''2024-05-05'' \<rparr>"
  have l: "loadCycles (ResOk [c1]) (initialState ''2024-06-01'') = s0"
    by (simp add: loadCycles_def fetchCycles_def s0_def initialState_def)
  have i: "cardInit c1 = \<lparr> card_start = ''2024-05-01'', card_end = ''2024-05-05'' \<rparr>"
    by (simp add: cardInit_def c1_def)
  have n: "\<not> isSaving s0" "card_start crd \<noteq> []"
    "card_end crd = [] \<or> \<not> card_end crd < card_start crd"
    "\<not> ''2024-06-01'' < card_start crd" "\<not> ''2024-06-01'' < card_end crd"
    using card_values by (simp_all add: s0_def initialState_def crd_def)
  have e: "s0\<lparr> error := None, message := None, isSaving := True \<rparr> = s0\<lparr> isSaving := True \<rparr>"
    by (simp add: s0_def initialState_def)
  have k: "cycle_id c1 = ''c1''" by (simp add: c1_def)
  have 1: "handleUpdate ''2024-06-01'' c1
        (loadCycles (ResOk [c1]) (initialState ''2024-06-01''), crd)
      = ((s0\<lparr> isSaving := True \<rparr>, cardInit c1),
         Some (PatchCycle ''c1'' (Some ''2024-05-02'') (Some ''2024-05-05'')))"
    unfolding l card_click_sends_and_remounts [OF n] e k by (simp add: crd_def)
  have f: "s0\<lparr> isSaving := True, error := Some ErrUpdateFailed, isSaving := False \<rparr>
      = s0\<lparr> error := Some ErrUpdateFailed \<rparr>"
    by (simp add: s0_def initialState_def)
  have 2: "handleUpdatePatched ''2024-05-02'' ''2024-05-05'' c1 MutNotOk
        (s0\<lparr> isSaving := True \<rparr>, cardInit c1)
      = ((s0\<lparr> error := Some ErrUpdateFailed \<rparr>, cardInit c1), None)"
    using card_failure_shows_stored_dates
      [of MutNotOk "s0\<lparr> isSaving := True \<rparr>" "''2024-05-02''" "''2024-05-05''" c1 "cardInit c1"]
    by (simp add: f)
  from 1 2 card_values(4) show ?thesis
    unfolding i unfolding s0_def crd_def c1_def by blast
qed

text \<open>
  C2.  The screen stores the list of a response as it is, so the number of open cycles on
  the screen is that of the list the service returned last.  If every list the service
  returns has at most one open cycle, then so has every state the screen can reach,
  whatever the order of clicks and responses.  In every state the open cycle of the screen
  is found by scanning the list: it is absent exactly when the list has no open cycle,
  and otherwise it is an element of the list with no end date.  While it is present,
  a click on the button that registers a start date issues no request and changes
  nothing.  No part of a handler other than the arrival of a fetched list changes the
  list (lemma \<open>cycles_unchanged\<close>).  The screen itself does not keep the bound: the
  card of a closed cycle whose end field has been emptied sends the update with end date
  \<^verbatim>\<open>null\<close> whether or not an open cycle exists (lemma \<open>card_update_with_empty_end\<close>), and
  what the list then holds is the decision of the service.
\<close>

lemma card_update_with_empty_end:
  assumes "\<not> isSaving s" "card_start crd \<noteq> []" "card_end crd = []" "\<not> today < card_start crd"
  shows "snd (handleUpdate today cycle (s, crd))
     = Some (PatchCycle (cycle_id cycle) (Some (card_start crd)) None)"
  using assms by (simp add: handleUpdate_def Let_def)

theorem one_open_cycle_when_service_lists_have:
  assumes "\<forall>cs. service cs \<longrightarrow> openCount cs \<le> 1"
    and "reachable service today selectedDate s"
  shows "openCount (cycles s) \<le> 1
     \<and> (openCycle (cycles s) = None \<longleftrightarrow> openCount (cycles s) = 0)
     \<and> (\<forall>oc. openCycle (cycles s) = Some oc \<longrightarrow> oc \<in> set (cycles s) \<and> log_end_date oc = None)
     \<and> (openCycle (cycles s) \<noteq> None \<longrightarrow> startClick today s = (s, None))"
proof (intro conjI allI impI)
  show "openCount (cycles s) \<le> 1"
    using reachable_cycles [OF assms(2)] assms(1) by (auto simp: openCount_def)
  show "openCycle (cycles s) = None \<longleftrightarrow> openCount (cycles s) = 0"
    by (auto simp: openCycle_def openCount_def find_None_iff filter_empty_conv)
next
  fix oc assume "openCycle (cycles s) = Some oc"
  then show "oc \<in> set (cycles s)" "log_end_date oc = None"
    by (auto simp: openCycle_def find_Some_iff)
next
  assume "openCycle (cycles s) \<noteq> None"
  then show "startClick today s = (s, None)" by (simp add: startClick_def)
qed

text \<open>A service that returns one open cycle: afterwards the start button does nothing.\<close>

theorem one_open_cycle_when_service_lists_have_witness:
  "reachable atMostOneOpen ''2024-06-01'' ''2024-06-01''
       (loadCycles
          (ResOk [\<lparr> cycle_id = ''a'', log_start_date = ''2024-05-20'', log_end_date = None \<rparr>,
                  \<lparr> cycle_id = ''b'', log_start_date = ''2024-04-22'',
                    log_end_date = Some ''2024-04-27'' \<rparr>])
          (initialState ''2024-06-01''))
   \<and> openCount (cycles (loadCycles
          (ResOk [\<lparr> cycle_id = ''a'', log_start_date = ''2024-05-20'', log_end_date = None \<rparr>,
                  \<lparr> cycle_id = ''b'', log_start_date = ''2024-04-22'',
                    log_end_date = Some ''2024-04-27'' \<rparr>])
          (initialState ''2024-06-01''))) \<le> 1
   \<and> snd (startClick ''2024-06-01'' (loadCycles
          (ResOk [\<lparr> cycle_id = ''a'', log_start_date = ''2024-05-20'', log_end_date = None \<rparr>,
                  \<lparr> cycle_id = ''b'', log_start_date = ''2024-04-22'',
                    log_end_date = Some ''2024-04-27'' \<rparr>])
          (initialState ''2024-06-01''))) = None"
proof -
  define cs where "cs = [\<lparr> cycle_id = ''a'', log_start_date = ''2024-05-20'', log_end_date = None \<rparr>,
      \<lparr> cycle_id = ''b'', log_start_date = ''2024-04-22'', log_end_date = Some ''2024-04-27'' \<rparr>]"
  define s where "s = loadCycles (ResOk cs) (initialState ''2024-06-01'')"
  have h: "\<forall>cs. atMostOneOpen cs \<longrightarrow> openCount cs \<le> 1" by (simp add: atMostOneOpen_def)
  have "mayReturn atMostOneOpen (ResOk cs)"
    by (simp add: mayReturn_def atMostOneOpen_def openCount_def cs_def)
  then have r: "reachable atMostOneOpen ''2024-06-01'' ''2024-06-01'' s"
    unfolding s_def by (rule r_load [OF r_init])
  have o: "openCycle (cycles s) \<noteq> None"
    by (simp add: s_def loadCycles_def fetchCycles_def openCycle_def cs_def)
  from one_open_cycle_when_service_lists_have [OF h r] o
  have "openCount (cycles s) \<le> 1" "snd (startClick ''2024-06-01'' s) = None" by simp_all
  with r show ?thesis unfolding s_def cs_def by blast
qed

text \<open>
  Without the condition on the service the count is not bounded by the screen: the list
  of a response with two open cycles is stored as it is.
\<close>

theorem two_open_cycles_stored:
  "reachable anyList ''2024-06-01'' ''2024-06-01''
       (loadCycles
          (ResOk [\<lparr> cycle_id = ''a'', log_start_date = ''2024-05-20'', log_end_date = None \<rparr>,
                  \<lparr> cycle_id = ''b'', log_start_date = ''2024-04-22'', log_end_date = None \<rparr>])
          (initialState ''2024-06-01''))
   \<and> \<not> openCount (cycles (loadCycles
          (ResOk [\<lparr> cycle_id = ''a'', log_start_date = ''2024-05-20'', log_end_date = None \<rparr>,
                  \<lparr> cycle_id = ''b'', log_start_date = ''2024-04-22'', log_end_date = None \<rparr>])
          (initialState ''2024-06-01''))) \<le> 1"
proof
  have "mayReturn anyList
      (ResOk [\<lparr> cycle_id = ''a'', log_start_date = ''2024-05-20'', log_end_date = None \<rparr>,
              \<lparr> cycle_id = ''b'', log_start_date = ''2024-04-22'', log_end_date = None \<rparr>])"
    by (simp add: mayReturn_def anyList_def)
  then show "reachable anyList ''2024-06-01'' ''2024-06-01''
       (loadCycles
          (ResOk [\<lparr> cycle_id = ''a'', log_start_date = ''2024-05-20'', log_end_date = None \<rparr>,
                  \<lparr> cycle_id = ''b'', log_start_date = ''2024-04-22'', log_end_date = None \<rparr>])
          (initialState ''2024-06-01''))"
    by (rule r_load [OF r_init])
  show "\<not> openCount (cycles (loadCycles
          (ResOk [\<lparr> cycle_id = ''a'', log_start_date = ''2024-05-20'', log_end_date = None \<rparr>,
                  \<lparr> cycle_id = ''b'', log_start_date = ''2024-04-22'', log_end_date = None \<rparr>])
          (initialState ''2024-06-01''))) \<le> 1"
    by (simp add: loadCycles_def fetchCycles_def openCount_def)
qed

end
